theory Spec2Isabelle
  imports Main "HOL-Library.AList"
begin

section \<open>JavaScript values\<close>

text \<open>
  The values the two source files handle. An object that the code mutates or aliases
  (an execution context, a \<^verbatim>\<open>module\<close> or \<^verbatim>\<open>exports\<close> object) lives in a store and is
  named by its address (\<open>Obj\<close>). Objects and functions of the host that the harness only
  passes along (\<^verbatim>\<open>console\<close>, \<^verbatim>\<open>process\<close>, \<^verbatim>\<open>WebSocket\<close>, ...) are opaque and named by a
  string. The three closures that the harness itself builds carry what they capture:
  \<open>ReqFn filePath globals\<close> is the \<^verbatim>\<open>req\<close> closure of \<^verbatim>\<open>prepareNodeContext\<close>,
  \<open>Document promises ctx filePath\<close> the fake document of \<^verbatim>\<open>prepareBrowserContext\<close> (whose
  \<^verbatim>\<open>head.appendChild\<close> captures the promise array, the context and the file path), and
  \<open>FetchFn promises filePath\<close> its \<^verbatim>\<open>fetch\<close>. Numbers are integers here.
\<close>

datatype val =
    Undefined
  | Null
  | Bool bool
  | Num int
  | Str string
  | Obj nat
  | HostObj string
  | HostFn string
  | ReqFn string "(string \<times> val) list"
  | Document nat nat string
  | FetchFn nat string

fun typeof :: "val \<Rightarrow> string" where
  "typeof Undefined = ''undefined''"
| "typeof Null = ''object''"
| "typeof (Bool b) = ''boolean''"
| "typeof (Num n) = ''number''"
| "typeof (Str s) = ''string''"
| "typeof (Obj r) = ''object''"
| "typeof (HostObj h) = ''object''"
| "typeof (HostFn h) = ''function''"
| "typeof (ReqFn p g) = ''function''"
| "typeof (Document pr c p) = ''object''"
| "typeof (FetchFn pr p) = ''function''"

text \<open>JavaScript's conversion to a boolean, as used by \<^verbatim>\<open>!main\<close> and \<^verbatim>\<open>!!builtins[name]\<close>.\<close>

fun truthy :: "val \<Rightarrow> bool" where
  "truthy Undefined = False"
| "truthy Null = False"
| "truthy (Bool b) = b"
| "truthy (Num n) = (n \<noteq> 0)"
| "truthy (Str s) = (s \<noteq> [])"
| "truthy v = True"

fun startsWith :: "string \<Rightarrow> string \<Rightarrow> bool" where
  "startsWith s [] = True"
| "startsWith [] (c # p) = False"
| "startsWith (d # s) (c # p) = (d = c \<and> startsWith s p)"

text \<open>\<^verbatim>\<open>v.startsWith(p)\<close> for a value that the code has found to be a string.\<close>

fun valStartsWith :: "val \<Rightarrow> string \<Rightarrow> bool" where
  "valStartsWith (Str s) p = startsWith s p"
| "valStartsWith v p = False"

text \<open>
  What the code throws: \<open>Error msg\<close> is \<^verbatim>\<open>new Error(msg)\<close>; \<open>AssertionError\<close> is a failed
  \<^verbatim>\<open>invariant(...)\<close> of the \<^verbatim>\<open>assert\<close> module; \<open>NullThrows\<close> is what \<^verbatim>\<open>nullthrows\<close> throws
  on \<^verbatim>\<open>null\<close> or \<^verbatim>\<open>undefined\<close>; \<open>ENOENT path\<close> is a read of a file that the file system does
  not have; \<open>ModuleNotFound\<close> is what \<^verbatim>\<open>resolve.sync\<close> and the platform's \<^verbatim>\<open>require\<close> throw;
  \<open>TypeError\<close> and \<open>ReferenceError\<close> are the language's own.
\<close>

datatype error =
    Error string
  | AssertionError
  | NullThrows
  | ENOENT string
  | ModuleNotFound string
  | TypeError
  | ReferenceError string

section \<open>NodeResolverBase\<close>

text \<open>
  A package manifest (\<^verbatim>\<open>PackageJSON\<close>): the three fields the resolver reads, each any JSON
  value, \<open>Undefined\<close> when the manifest lacks the field.
\<close>

record packageJSON =
  pkg_name :: val
  pkg_main :: val
  pkg_source :: val

record 'fs nodeResolverBase =
  fs :: 'fs
  extensions :: "string list"
  packageCache :: "(string \<times> packageJSON) list"

text \<open>
  The constructor. \<open>extensions\<close> is the optional argument (\<open>None\<close> when the caller leaves it
  out) and \<open>moduleExtensions\<close> stands for the platform's \<^verbatim>\<open>Object.keys(Module._extensions)\<close>.
  An array is truthy even when empty, so only a missing argument takes the default.
\<close>

definition NodeResolverBase :: "'fs \<Rightarrow> string list option \<Rightarrow> string list \<Rightarrow> 'fs nodeResolverBase" where
  "NodeResolverBase fsys exts moduleExtensions =
     \<lparr>fs = fsys,
      extensions = (case exts of Some e \<Rightarrow> e | None \<Rightarrow> moduleExtensions),
      packageCache = []\<rparr>"

text \<open>
  \<^verbatim>\<open>resolve(id, from)\<close> of the base class: its whole body is a \<^verbatim>\<open>throw\<close>. The result type
  \<open>'t\<close> is the class's type parameter \<^verbatim>\<open>T\<close>.
\<close>

definition resolve :: "'fs nodeResolverBase \<Rightarrow> string \<Rightarrow> string \<Rightarrow> error + 't" where
  \<open>resolve this ident fromPath =
     Inl (Error (''Could not resolve "'' @ ident @ ''" from "'' @ fromPath @ ''"''))\<close>

text \<open>
  \<^verbatim>\<open>expandFile(file)\<close>. \<open>extname\<close> stands for the platform's \<^verbatim>\<open>path.extname\<close>; its result is
  used as a condition, and a string is truthy when it is not empty.
\<close>

definition expandFile :: "(string \<Rightarrow> string) \<Rightarrow> 'fs nodeResolverBase \<Rightarrow> string \<Rightarrow> string list" where
  "expandFile extname this file =
     (let res = map (\<lambda>ext. file @ ext) (extensions this)
      in if extname file \<noteq> [] then file # res else res @ [file])"

text \<open>
  \<^verbatim>\<open>Array.prototype.map\<close> with a callback that may throw: the first error ends the loop.
\<close>

fun mapE :: "('a \<Rightarrow> error + 'b) \<Rightarrow> 'a list \<Rightarrow> error + 'b list" where
  "mapE f [] = Inr []"
| "mapE f (x # xs) =
     (case f x of
        Inl e \<Rightarrow> Inl e
      | Inr y \<Rightarrow> (case mapE f xs of Inl e \<Rightarrow> Inl e | Inr ys \<Rightarrow> Inr (y # ys)))"

text \<open>
  \<^verbatim>\<open>getPackageEntries(dir, pkg)\<close>. \<open>path_resolve\<close> stands for the platform's
  \<^verbatim>\<open>path.resolve\<close> and \<open>buildEnv\<close> for \<^verbatim>\<open>process.env.PARCEL_BUILD_ENV\<close> (\<open>None\<close> when the
  variable is not set). \<open>entryOf\<close> is the callback given to \<^verbatim>\<open>map\<close>.
\<close>

definition entryOf :: "(string \<Rightarrow> string \<Rightarrow> string) \<Rightarrow> string \<Rightarrow> val \<Rightarrow> error + string" where
  "entryOf path_resolve dir main0 =
     (let main = (if \<not> truthy main0 \<or> main0 = Str ''.'' \<or> main0 = Str ''./''
                  then Str ''index'' else main0)
      in case main of
           Str s \<Rightarrow> Inr (path_resolve dir s)
         | _ \<Rightarrow> Inl (Error ''invariant: expected string''))"

definition getPackageEntries ::
  "(string \<Rightarrow> string \<Rightarrow> string) \<Rightarrow> string option \<Rightarrow> string \<Rightarrow> packageJSON \<Rightarrow> error + string list" where
  "getPackageEntries path_resolve buildEnv dir pkg =
     (let main = pkg_main pkg;
          main = (if buildEnv \<noteq> Some ''production'' \<and>
                     typeof (pkg_name pkg) = ''string'' \<and>
                     valStartsWith (pkg_name pkg) ''@parcel/'' \<and>
                     pkg_name pkg \<noteq> Str ''@parcel/watcher''
                  then pkg_source pkg else main)
      in mapE (entryOf path_resolve dir) (filter (\<lambda>entry. typeof entry = ''string'') [main]))"

text \<open>
  The entries that one manifest field gives: none when the field is not a string, else the
  one path of the field, with \<^verbatim>\<open>index\<close> standing in for an empty string, \<^verbatim>\<open>.\<close> and \<^verbatim>\<open>./\<close>.
\<close>

definition entriesOfField :: "(string \<Rightarrow> string \<Rightarrow> string) \<Rightarrow> string \<Rightarrow> val \<Rightarrow> string list" where
  "entriesOfField path_resolve dir v =
     (case v of
        Str s \<Rightarrow> [path_resolve dir (if s = [] \<or> s = ''.'' \<or> s = ''./'' then ''index'' else s)]
      | _ \<Rightarrow> [])"

text \<open>
  The policy in the spec's words: the build is not a production build, the package name is
  a string with the reserved prefix, and the package is not the excluded one.
\<close>

definition sourcePolicy :: "string option \<Rightarrow> packageJSON \<Rightarrow> bool" where
  "sourcePolicy buildEnv pkg \<longleftrightarrow>
     buildEnv \<noteq> Some ''production'' \<and>
     (\<exists>n. pkg_name pkg = Str n \<and> startsWith n ''@parcel/'' \<and> n \<noteq> ''@parcel/watcher'')"

text \<open>
  The table \<^verbatim>\<open>builtins\<close> holds \<^verbatim>\<open>true\<close> under every name of the platform's
  \<^verbatim>\<open>Module.builtinModules\<close>, here \<open>builtinModules\<close>; \<^verbatim>\<open>isBuiltin(name)\<close> is \<^verbatim>\<open>!!builtins[name]\<close>.
  The table is a plain object (\<^verbatim>\<open>{}\<close>), so a name that is not among its own entries is looked
  up in \<^verbatim>\<open>Object.prototype\<close>, whose properties are functions and, under \<^verbatim>\<open>__proto__\<close>, the
  prototype object itself: all of them truthy. The assignment \<^verbatim>\<open>builtins[builtin] = true\<close>
  creates an own entry, except under \<^verbatim>\<open>__proto__\<close>, where it calls the setter of the prototype,
  which ignores a value that is not an object.
\<close>

definition builtins :: "string list \<Rightarrow> (string \<times> val) list" where
  "builtins builtinModules =
     fold (\<lambda>builtin tbl. if builtin = ''__proto__'' then tbl
                          else AList.update builtin (Bool True) tbl) builtinModules []"

definition objectPrototype :: "(string \<times> val) list" where
  "objectPrototype =
     [(''constructor'', HostFn ''Object''),
      (''__defineGetter__'', HostFn ''__defineGetter__''),
      (''__defineSetter__'', HostFn ''__defineSetter__''),
      (''hasOwnProperty'', HostFn ''hasOwnProperty''),
      (''__lookupGetter__'', HostFn ''__lookupGetter__''),
      (''__lookupSetter__'', HostFn ''__lookupSetter__''),
      (''isPrototypeOf'', HostFn ''isPrototypeOf''),
      (''propertyIsEnumerable'', HostFn ''propertyIsEnumerable''),
      (''toString'', HostFn ''toString''),
      (''valueOf'', HostFn ''valueOf''),
      (''__proto__'', HostObj ''Object.prototype''),
      (''toLocaleString'', HostFn ''toLocaleString'')]"

definition isBuiltin :: "string list \<Rightarrow> string \<Rightarrow> bool" where
  "isBuiltin builtinModules name =
     (case map_of (builtins builtinModules) name of
        Some v \<Rightarrow> truthy v
      | None \<Rightarrow> (case map_of objectPrototype name of Some v \<Rightarrow> truthy v | None \<Rightarrow> False))"

subsection \<open>The platform's path functions on POSIX, for concrete runs\<close>

text \<open>
  The definitions above take \<^verbatim>\<open>path.extname\<close> and \<^verbatim>\<open>path.resolve\<close> as parameters. For
  concrete runs these are their POSIX versions: the extension of a path is the part of its
  last component from the last dot on, empty when there is no dot, when the only dot comes
  first, or when the component is \<^verbatim>\<open>..\<close>; resolving \<open>p\<close> against \<open>dir\<close> and the working
  directory \<open>cwd\<close> takes the rightmost absolute path and what stands to its right, and
  normalises the result: empty segments and \<^verbatim>\<open>.\<close> are dropped, and \<^verbatim>\<open>..\<close> removes the segment
  before it, stays at the root of an absolute path and is kept at the start of a relative
  one.
\<close>

definition basename :: "string \<Rightarrow> string" where
  "basename p =
     rev (takeWhile (\<lambda>c. c \<noteq> CHR ''/'') (dropWhile (\<lambda>c. c = CHR ''/'') (rev p)))"

definition posix_extname :: "string \<Rightarrow> string" where
  "posix_extname p =
     (let base = basename p;
          ext = rev (takeWhile (\<lambda>c. c \<noteq> CHR ''.'') (rev base))
      in if CHR ''.'' \<notin> set base \<or> base = ''..'' \<or> length ext + 1 = length base
         then [] else CHR ''.'' # ext)"

fun splitSlash :: "string \<Rightarrow> string list" where
  "splitSlash [] = [[]]"
| "splitSlash (c # cs) =
     (if c = CHR ''/'' then [] # splitSlash cs
      else (case splitSlash cs of [] \<Rightarrow> [[c]] | s # ss \<Rightarrow> (c # s) # ss))"

fun normalizeSegments :: "bool \<Rightarrow> string list \<Rightarrow> string list \<Rightarrow> string list" where
  "normalizeSegments absolute acc [] = rev acc"
| "normalizeSegments absolute acc (s # ss) =
     (if s = [] \<or> s = ''.'' then normalizeSegments absolute acc ss
      else if s = ''..'' then
        (case acc of
           [] \<Rightarrow> normalizeSegments absolute (if absolute then [] else [s]) ss
         | t # ts \<Rightarrow> normalizeSegments absolute (if t = ''..'' then s # acc else ts) ss)
      else normalizeSegments absolute (s # acc) ss)"

definition isAbsolute :: "string \<Rightarrow> bool" where
  "isAbsolute p = (case p of [] \<Rightarrow> False | c # cs \<Rightarrow> c = CHR ''/'')"

definition posix_resolve :: "string \<Rightarrow> string \<Rightarrow> string \<Rightarrow> string" where
  "posix_resolve cwd dir p =
     (let full = (if isAbsolute p then p
                  else if isAbsolute dir then dir @ ''/'' @ p
                  else cwd @ ''/'' @ dir @ ''/'' @ p);
          segs = normalizeSegments True [] (splitSlash full)
      in if segs = [] then ''/'' else concat (map (\<lambda>s. CHR ''/'' # s) segs))"

section \<open>The bundle executor\<close>

subsection \<open>Store, scripts and state\<close>

text \<open>
  An object is the list of its own properties, in the order in which they were created.
  The store holds the objects that the harness creates and later reads or writes through
  a reference; an address is an index into it. The arrays of promises that
  \<^verbatim>\<open>prepareBrowserContext\<close> creates are kept apart from the objects, since no script gets to
  see them; an array is named by its index, too.
\<close>

type_synonym obj = "(string \<times> val) list"

datatype promise = Pending | Fulfilled | Rejected error

text \<open>
  The harness hands the text of a bundle or of a required module to \<^verbatim>\<open>vm\<close>. Of such a
  script only what it does to the bindings of its context and which functions of the
  harness it calls matters here, so a script is the sequence of these actions:
  \<^item> \<open>ExportsPut k e\<close> is \<^verbatim>\<open>exports.k = e\<close>;
  \<^item> \<open>ModuleExports e\<close> is \<^verbatim>\<open>module.exports = e\<close>;
  \<^item> \<open>AppendScript src\<close> creates an element with \<^verbatim>\<open>document.createElement('script')\<close>, gives
    it the source \<open>src\<close> and an \<^verbatim>\<open>onload\<close> function without effect, and appends it to the
    head of the document;
  \<^item> \<open>FetchText url\<close> is \<^verbatim>\<open>fetch(url).then(r => r.text())\<close>;
  and an expression is a literal or \<^verbatim>\<open>require(specifier)\<close>. A script reaches the functions
  of the harness through the bindings of its context only. A statement that calls a binding
  which is not the function the harness put there is outside this model and ends the script
  with a \<open>TypeError\<close>.
\<close>

datatype expr = Lit val | RequireCall string

datatype stmt =
    ExportsPut string expr
  | ModuleExports expr
  | AppendScript string
  | FetchText string

text \<open>
  Work that the harness defers to a later turn of the event loop:
  \<^item> \<open>LoadScript promises ctx filePath src i\<close> is the timer callback of \<^verbatim>\<open>head.appendChild\<close>,
    with the variables it captures and the index \<open>i\<close> of its promise in the array
    \<open>promises\<close>;
  \<^item> \<open>CallText promises file\<close> is the reaction of \<open>FetchText\<close>, which calls \<^verbatim>\<open>text()\<close> on the
    response;
  \<^item> \<open>ReadDone promises i file\<close> is the completion of the read that \<^verbatim>\<open>text()\<close> started.
\<close>

datatype job =
    LoadScript nat nat string string nat
  | CallText nat string
  | ReadDone nat nat string

text \<open>
  The state that the functions of the harness share: the store; the arrays of promises;
  \<^verbatim>\<open>nodeCache\<close>, the constant of the module that maps a resolved path to its context;
  \<^verbatim>\<open>overlayFS\<close>, with each file holding a script; and the queue of deferred work.
\<close>

record state =
  store :: "obj list"
  pending :: "promise list list"
  nodeCache :: "(string \<times> nat) list"
  overlayFS :: "(string \<times> stmt list) list"
  jobs :: "job list"

text \<open>
  The functions of the platform and of the \<^verbatim>\<open>resolve\<close> package that the harness calls:
  \<^verbatim>\<open>path.dirname\<close>, \<^verbatim>\<open>path.join\<close>, \<^verbatim>\<open>url.parse(src).pathname\<close>, \<^verbatim>\<open>resolve.sync\<close> on a file
  system and a base directory (\<open>None\<close> when it throws) and the platform's own \<^verbatim>\<open>require\<close>
  (\<open>None\<close> when it throws).
\<close>

record platform =
  dirname :: "string \<Rightarrow> string"
  path_join :: "string \<Rightarrow> string \<Rightarrow> string"
  url_pathname :: "string \<Rightarrow> string"
  resolve_sync :: "(string \<times> stmt list) list \<Rightarrow> string \<Rightarrow> string \<Rightarrow> string option"
  native_require :: "string \<Rightarrow> val option"

definition alloc :: "obj \<Rightarrow> state \<Rightarrow> nat \<times> state" where
  "alloc ps st = (length (store st), st\<lparr>store := store st @ [ps]\<rparr>)"

definition props :: "state \<Rightarrow> nat \<Rightarrow> obj" where
  "props st r = (if r < length (store st) then store st ! r else [])"

definition newPromises :: "state \<Rightarrow> nat \<times> state" where
  "newPromises st = (length (pending st), st\<lparr>pending := pending st @ [[]]\<rparr>)"

definition promisesAt :: "state \<Rightarrow> nat \<Rightarrow> promise list" where
  "promisesAt st r = (if r < length (pending st) then pending st ! r else [])"

text \<open>
  Reading \<^verbatim>\<open>v.k\<close> and writing \<^verbatim>\<open>v.k = x\<close>. Both throw on \<^verbatim>\<open>undefined\<close> and \<^verbatim>\<open>null\<close>. A
  write to a primitive value is dropped, and throws in strict mode. The properties of
  host objects and of functions are not tracked: a read gives \<^verbatim>\<open>undefined\<close>.
\<close>

definition getProp :: "state \<Rightarrow> val \<Rightarrow> string \<Rightarrow> error + val" where
  "getProp st v k =
     (case v of
        Undefined \<Rightarrow> Inl TypeError
      | Null \<Rightarrow> Inl TypeError
      | Obj r \<Rightarrow> Inr (case map_of (props st r) k of Some x \<Rightarrow> x | None \<Rightarrow> Undefined)
      | _ \<Rightarrow> Inr Undefined)"

definition setProp :: "bool \<Rightarrow> val \<Rightarrow> string \<Rightarrow> val \<Rightarrow> state \<Rightarrow> (error + unit) \<times> state" where
  "setProp strict v k x st =
     (case v of
        Undefined \<Rightarrow> (Inl TypeError, st)
      | Null \<Rightarrow> (Inl TypeError, st)
      | Obj r \<Rightarrow> (Inr (), st\<lparr>store := (store st)[r := AList.update k x (props st r)]\<rparr>)
      | Bool b \<Rightarrow> (if strict then Inl TypeError else Inr (), st)
      | Num n \<Rightarrow> (if strict then Inl TypeError else Inr (), st)
      | Str s \<Rightarrow> (if strict then Inl TypeError else Inr (), st)
      | _ \<Rightarrow> (Inr (), st))"

text \<open>
  \<^verbatim>\<open>Object.assign(target, source)\<close>: each property of the source, in order, is written to
  the target. The caller's \<^verbatim>\<open>globals\<close> are given as the list of their own properties, which
  is empty for \<^verbatim>\<open>undefined\<close> and \<^verbatim>\<open>null\<close>.
\<close>

definition Object_assign :: "obj \<Rightarrow> obj \<Rightarrow> obj" where
  "Object_assign target source = fold (\<lambda>(k, v) t. AList.update k v t) source target"

subsection \<open>Execution contexts\<close>

definition prepareNodeContext :: "platform \<Rightarrow> string \<Rightarrow> obj \<Rightarrow> state \<Rightarrow> nat \<times> state" where
  "prepareNodeContext P file globals st0 =
     (let (exports, st1) = alloc [] st0;
          req = ReqFn file globals;
          (modul, st2) = alloc [(''exports'', Obj exports), (''require'', req)] st1;
          (ctx, st3) = alloc (Object_assign
             [(''module'', Obj modul),
              (''exports'', Obj exports),
              (''__filename'', Str file),
              (''__dirname'', Str (dirname P file)),
              (''require'', req),
              (''console'', HostObj ''console''),
              (''process'', HostObj ''process''),
              (''setTimeout'', HostFn ''setTimeout''),
              (''setImmediate'', HostFn ''setImmediate'')]
             globals) st2;
          st4 = snd (setProp False (Obj ctx) ''global'' (Obj ctx) st3)
      in (ctx, st4))"

text \<open>
  \<^verbatim>\<open>ctx.window = ctx.self = ctx\<close> assigns \<^verbatim>\<open>self\<close> first. The fake document captures the
  variable \<^verbatim>\<open>ctx\<close>, which holds the context from the assignment on; \<open>c\<close> is the address that
  the context is about to get.
\<close>

definition prepareBrowserContext :: "string \<Rightarrow> obj \<Rightarrow> state \<Rightarrow> (nat \<times> nat) \<times> state" where
  "prepareBrowserContext file globals st0 =
     (let (promises, st1) = newPromises st0;
          (exports, st2) = alloc [] st1;
          (modul, st3) = alloc [(''exports'', Obj exports)] st2;
          (location, st4) = alloc [(''hostname'', Str ''localhost''),
                                   (''origin'', Str ''http://localhost'')] st3;
          c = length (store st4);
          (ctx, st5) = alloc (Object_assign
             [(''exports'', Obj exports),
              (''module'', Obj modul),
              (''document'', Document promises c file),
              (''WebSocket'', HostFn ''WebSocket''),
              (''console'', HostObj ''console''),
              (''location'', Obj location),
              (''fetch'', FetchFn promises file),
              (''atob'', HostFn ''atob''),
              (''btoa'', HostFn ''btoa''),
              (''URL'', HostFn ''URL'')]
             globals) st4;
          st6 = snd (setProp False (Obj ctx) ''self'' (Obj ctx) st5);
          st7 = snd (setProp False (Obj ctx) ''window'' (Obj ctx) st6)
      in ((ctx, promises), st7))"

text \<open>\<^verbatim>\<open>ctx.module.exports\<close>, for the context at address \<open>ctx\<close>.\<close>

definition moduleExports :: "state \<Rightarrow> nat \<Rightarrow> error + val" where
  "moduleExports st ctx =
     (case getProp st (Obj ctx) ''module'' of
        Inl e \<Rightarrow> Inl e
      | Inr m \<Rightarrow> getProp st m ''exports'')"

text \<open>
  The outcome of a function that may throw and changes the state: the value or the error,
  and the state it leaves. \<open>None\<close> means that the bound on the evaluation was reached
  before the function returned.
\<close>

type_synonym 'a outcome = "((error + 'a) \<times> state) option"

definition pushPromise :: "nat \<Rightarrow> state \<Rightarrow> nat \<times> state" where
  "pushPromise promises st =
     (length (promisesAt st promises),
      st\<lparr>pending := (pending st)[promises := promisesAt st promises @ [Pending]]\<rparr>)"

definition settle :: "nat \<Rightarrow> nat \<Rightarrow> promise \<Rightarrow> state \<Rightarrow> state" where
  "settle promises i p st =
     (if i < length (promisesAt st promises) \<and> promisesAt st promises ! i = Pending
      then st\<lparr>pending := (pending st)[promises := (promisesAt st promises)[i := p]]\<rparr>
      else st)"

subsection \<open>The require shim and the evaluation of scripts\<close>

text \<open>
  \<open>req P n file globals specifier\<close> is the closure \<^verbatim>\<open>req\<close> that
  \<^verbatim>\<open>prepareNodeContext(file, globals)\<close> builds, applied to a specifier. It evaluates the
  required module with \<open>runInContext\<close>, whose statements may call \<^verbatim>\<open>require\<close> again;
  \<open>n\<close> bounds the depth of this nesting. \<open>runInContext P n strict ctx code\<close> is
  \<^verbatim>\<open>vm.runInContext(code, ctx)\<close>; required modules run in strict mode, since the harness
  puts \<^verbatim>\<open>"use strict"\<close> before their text. In an assignment the target is looked up before
  the right-hand side is evaluated.
\<close>

function (sequential)
  req :: "platform \<Rightarrow> nat \<Rightarrow> string \<Rightarrow> obj \<Rightarrow> string \<Rightarrow> state \<Rightarrow> val outcome"
  and evalExpr :: "platform \<Rightarrow> nat \<Rightarrow> nat \<Rightarrow> expr \<Rightarrow> state \<Rightarrow> val outcome"
  and execStmt :: "platform \<Rightarrow> nat \<Rightarrow> bool \<Rightarrow> nat \<Rightarrow> stmt \<Rightarrow> state \<Rightarrow> unit outcome"
  and runInContext :: "platform \<Rightarrow> nat \<Rightarrow> bool \<Rightarrow> nat \<Rightarrow> stmt list \<Rightarrow> state \<Rightarrow> unit outcome"
where
  "req P n file globals specifier st =
     (case resolve_sync P (overlayFS st) (dirname P file) specifier of
        None \<Rightarrow> Some (Inl (ModuleNotFound specifier), st)
      | Some res \<Rightarrow>
          if res = ''fs'' then
            (let (shim, st1) = alloc [(''readFile'', HostFn ''readFile''),
                                      (''readFileSync'', HostFn ''readFileSync'')] st
             in Some (Inr (Obj shim), st1))
          else if res = specifier then
            (case native_require P specifier of
               None \<Rightarrow> Some (Inl (ModuleNotFound specifier), st)
             | Some v \<Rightarrow> Some (Inr v, st))
          else
            (case map_of (nodeCache st) res of
               Some cached \<Rightarrow> Some (moduleExports st cached, st)
             | None \<Rightarrow>
                 (let (ctx, st1) = prepareNodeContext P res globals st;
                      st2 = st1\<lparr>nodeCache := AList.update res ctx (nodeCache st1)\<rparr>
                  in case map_of (overlayFS st2) res of
                       None \<Rightarrow> Some (Inl (ENOENT res), st2)
                     | Some code \<Rightarrow>
                         (case n of
                            0 \<Rightarrow> None
                          | Suc m \<Rightarrow>
                              (case runInContext P m True ctx code st2 of
                                 None \<Rightarrow> None
                               | Some (Inl e, st3) \<Rightarrow> Some (Inl e, st3)
                               | Some (Inr u, st3) \<Rightarrow> Some (moduleExports st3 ctx, st3))))))"
| "evalExpr P n ctx (Lit v) st = Some (Inr v, st)"
| "evalExpr P n ctx (RequireCall specifier) st =
     (case map_of (props st ctx) ''require'' of
        None \<Rightarrow> Some (Inl (ReferenceError ''require''), st)
      | Some (ReqFn file globals) \<Rightarrow> req P n file globals specifier st
      | Some other \<Rightarrow> Some (Inl TypeError, st))"
| "execStmt P n strict ctx (ExportsPut k e) st =
     (case map_of (props st ctx) ''exports'' of
        None \<Rightarrow> Some (Inl (ReferenceError ''exports''), st)
      | Some target \<Rightarrow>
          (case evalExpr P n ctx e st of
             None \<Rightarrow> None
           | Some (Inl err, st1) \<Rightarrow> Some (Inl err, st1)
           | Some (Inr v, st1) \<Rightarrow> Some (setProp strict target k v st1)))"
| "execStmt P n strict ctx (ModuleExports e) st =
     (case map_of (props st ctx) ''module'' of
        None \<Rightarrow> Some (Inl (ReferenceError ''module''), st)
      | Some target \<Rightarrow>
          (case evalExpr P n ctx e st of
             None \<Rightarrow> None
           | Some (Inl err, st1) \<Rightarrow> Some (Inl err, st1)
           | Some (Inr v, st1) \<Rightarrow> Some (setProp strict target ''exports'' v st1)))"
| "execStmt P n strict ctx (AppendScript src) st =
     (case map_of (props st ctx) ''document'' of
        None \<Rightarrow> Some (Inl (ReferenceError ''document''), st)
      | Some (Document promises c file) \<Rightarrow>
          (let (i, st1) = pushPromise promises st
           in Some (Inr (), st1\<lparr>jobs := jobs st1 @ [LoadScript promises c file src i]\<rparr>))
      | Some other \<Rightarrow> Some (Inl TypeError, st))"
| "execStmt P n strict ctx (FetchText url) st =
     (case map_of (props st ctx) ''fetch'' of
        None \<Rightarrow> Some (Inl (ReferenceError ''fetch''), st)
      | Some (FetchFn promises file) \<Rightarrow>
          Some (Inr (), st\<lparr>jobs := jobs st @ [CallText promises (path_join P (dirname P file) url)]\<rparr>)
      | Some other \<Rightarrow> Some (Inl TypeError, st))"
| "runInContext P n strict ctx [] st = Some (Inr (), st)"
| "runInContext P n strict ctx (s # ss) st =
     (case execStmt P n strict ctx s st of
        None \<Rightarrow> None
      | Some (Inl err, st1) \<Rightarrow> Some (Inl err, st1)
      | Some (Inr u, st1) \<Rightarrow> runInContext P n strict ctx ss st1)"
  by pat_completeness auto

termination
  by (relation "inv_image (less_than <*lex*> less_than) (\<lambda>x. case x of
          Inl (Inl (P, n, file, globals, specifier, st)) \<Rightarrow> (n, 0)
        | Inl (Inr (P, n, ctx, e, st)) \<Rightarrow> (n, 1)
        | Inr (Inl (P, n, strict, ctx, s, st)) \<Rightarrow> (n, 2)
        | Inr (Inr (P, n, strict, ctx, code, st)) \<Rightarrow> (n, 3 + length code))") auto

subsection \<open>Deferred work and the suspension points of a run\<close>

text \<open>
  Running one deferred piece of work. The timer callback of a script tag reads the file,
  evaluates it in the context that \<^verbatim>\<open>prepareBrowserContext\<close> built, calls \<^verbatim>\<open>el.onload()\<close> and
  resolves its promise; an error in it is an exception that nothing catches, and the promise
  stays pending. The state does not record which objects \<^verbatim>\<open>vm.createContext\<close> has made
  contexts: the callback is taken to hold one, as it does in a browser run, where
  \<^verbatim>\<open>runBundles\<close> makes a context of the very object that \<^verbatim>\<open>prepareBrowserContext\<close> returned. In
  an electron-renderer run the context of the run is the merged object, and the code ends
  the callback with the exception of \<^verbatim>\<open>vm.runInContext\<close> where the script is evaluated here.
\<close>

definition runJob :: "platform \<Rightarrow> nat \<Rightarrow> job \<Rightarrow> state \<Rightarrow> unit outcome" where
  "runJob P n j st =
     (case j of
        LoadScript promises ctx file src i \<Rightarrow>
          (let target = path_join P (dirname P file) (url_pathname P src)
           in case map_of (overlayFS st) target of
                None \<Rightarrow> Some (Inl (ENOENT target), st)
              | Some code \<Rightarrow>
                  (case runInContext P n False ctx code st of
                     None \<Rightarrow> None
                   | Some (Inl e, st1) \<Rightarrow> Some (Inl e, st1)
                   | Some (Inr u, st1) \<Rightarrow> Some (Inr (), settle promises i Fulfilled st1)))
      | CallText promises target \<Rightarrow>
          (let (i, st1) = pushPromise promises st
           in Some (Inr (), st1\<lparr>jobs := jobs st1 @ [ReadDone promises i target]\<rparr>))
      | ReadDone promises i target \<Rightarrow>
          Some (Inr (), settle promises i
                  (case map_of (overlayFS st) target of
                     None \<Rightarrow> Rejected (ENOENT target)
                   | Some content \<Rightarrow> Fulfilled) st))"

text \<open>
  While \<^verbatim>\<open>runBundles\<close> is suspended at an \<^verbatim>\<open>await\<close>, the event loop runs deferred work in an
  order that the harness does not fix. A schedule makes the order explicit: \<open>Run i\<close> runs
  the \<open>i\<close>-th piece of the queue, \<open>Resume\<close> completes the awaited read of a bundle. A
  schedule that ends while \<^verbatim>\<open>runBundles\<close> is suspended gives \<open>None\<close>. An exception of
  deferred work ends the run without a result. The reaction of a \<^verbatim>\<open>fetch\<close> is deferred work
  like the others, which a schedule may run at any turn; the event loop runs it as soon as
  the script that called \<^verbatim>\<open>fetch\<close> has ended.
\<close>

datatype tick = Run nat | Resume

definition runJobAt :: "platform \<Rightarrow> nat \<Rightarrow> nat \<Rightarrow> state \<Rightarrow> unit outcome" where
  "runJobAt P n i st =
     (if i < length (jobs st)
      then runJob P n (jobs st ! i) (st\<lparr>jobs := take i (jobs st) @ drop (Suc i) (jobs st)\<rparr>)
      else Some (Inr (), st))"

fun awaitRead :: "platform \<Rightarrow> nat \<Rightarrow> tick list \<Rightarrow> state \<Rightarrow> (tick list) outcome" where
  "awaitRead P n [] st = None"
| "awaitRead P n (Resume # ts) st = Some (Inr ts, st)"
| "awaitRead P n (Run i # ts) st =
     (case runJobAt P n i st of
        None \<Rightarrow> None
      | Some (Inl e, st1) \<Rightarrow> Some (Inl e, st1)
      | Some (Inr u, st1) \<Rightarrow> awaitRead P n ts st1)"

fun firstRejected :: "promise list \<Rightarrow> error option" where
  "firstRejected [] = None"
| "firstRejected (Rejected e # ps) = Some e"
| "firstRejected (p # ps) = firstRejected ps"

text \<open>
  \<^verbatim>\<open>await Promise.all(promises)\<close>. \<^verbatim>\<open>Promise.all\<close> reads the array when it is called: \<open>k\<close> is
  the length of the array at that moment, and only the first \<open>k\<close> promises are awaited. It
  rejects with the first rejection and resolves once all \<open>k\<close> are fulfilled.
\<close>

fun awaitAll :: "platform \<Rightarrow> nat \<Rightarrow> tick list \<Rightarrow> nat \<Rightarrow> nat \<Rightarrow> state \<Rightarrow> unit outcome" where
  "awaitAll P n ts promises k st =
     (case firstRejected (take k (promisesAt st promises)) of
        Some e \<Rightarrow> Some (Inl e, st)
      | None \<Rightarrow>
          if Pending \<notin> set (take k (promisesAt st promises)) then Some (Inr (), st)
          else (case ts of
                  [] \<Rightarrow> None
                | Resume # ts1 \<Rightarrow> awaitAll P n ts1 promises k st
                | Run i # ts1 \<Rightarrow>
                    (case runJobAt P n i st of
                       None \<Rightarrow> None
                     | Some (Inl e, st1) \<Rightarrow> Some (Inl e, st1)
                     | Some (Inr u, st1) \<Rightarrow> awaitAll P n ts1 promises k st1)))"

subsection \<open>runBundles\<close>

text \<open>
  Of an asset the run reads its environment and its public id; of a bundle the asset that
  \<^verbatim>\<open>b.getMainEntry() || b.getEntryAssets()[0]\<close> gives (\<open>None\<close> when that is \<^verbatim>\<open>undefined\<close>), its
  file path (\<open>None\<close> when it is \<^verbatim>\<open>null\<close>) and its name.
\<close>

record asset =
  envContext :: string
  outputFormat :: string
  scopeHoist :: bool
  publicId :: string

record namedBundle =
  mainEntry :: "asset option"
  bundlePath :: "string option"
  bundleName :: string

text \<open>
  What a run returns: a value, or what the module loader \<open>f\<close> of the bundle returns for a
  public id, which is outside the model (\<open>CallOf f id\<close>).
\<close>

datatype result = Value val | CallOf val string

text \<open>The loop over the bundles: each is read, which suspends the run, and then evaluated.\<close>

fun evalBundles :: "platform \<Rightarrow> nat \<Rightarrow> tick list \<Rightarrow> nat \<Rightarrow> namedBundle list \<Rightarrow> state
    \<Rightarrow> (tick list) outcome" where
  "evalBundles P n ts ctx [] st = Some (Inr ts, st)"
| "evalBundles P n ts ctx (b # bs) st =
     (case bundlePath b of
        None \<Rightarrow> Some (Inl NullThrows, st)
      | Some file \<Rightarrow>
          (case awaitRead P n ts st of
             None \<Rightarrow> None
           | Some (Inl e, st1) \<Rightarrow> Some (Inl e, st1)
           | Some (Inr ts1, st1) \<Rightarrow>
               (case map_of (overlayFS st1) file of
                  None \<Rightarrow> Some (Inl (ENOENT file), st1)
                | Some code \<Rightarrow>
                    (case runInContext P n False ctx code st1 of
                       None \<Rightarrow> None
                     | Some (Inl e, st2) \<Rightarrow> Some (Inl e, st2)
                     | Some (Inr u, st2) \<Rightarrow> evalBundles P n ts1 ctx bs st2))))"

text \<open>
  The \<^verbatim>\<open>switch\<close> on the target: the context and, for the targets with a browser side, the
  array of pending loads.
\<close>

definition prepareContext :: "platform \<Rightarrow> string \<Rightarrow> string \<Rightarrow> obj \<Rightarrow> state
    \<Rightarrow> (error + nat \<times> nat option) \<times> state" where
  "prepareContext P target parentPath globals st =
     (if target = ''browser'' then
        (let ((ctx, promises), st1) = prepareBrowserContext parentPath globals st
         in (Inr (ctx, Some promises), st1))
      else if target = ''node'' \<or> target = ''electron-main'' then
        (let (ctx, st1) = prepareNodeContext P parentPath globals st
         in (Inr (ctx, None), st1))
      else if target = ''electron-renderer'' then
        (let ((bctx, promises), st1) = prepareBrowserContext parentPath globals st;
             (nctx, st2) = prepareNodeContext P parentPath globals st1;
             (ctx, st3) = alloc (Object_assign (Object_assign [] (props st2 bctx)) (props st2 nctx)) st2
         in (Inr (ctx, Some promises), st3))
      else (Inl (Error (''Unknown target '' @ target)), st))"

definition entryAssetOf :: "namedBundle list \<Rightarrow> asset option" where
  "entryAssetOf bundles =
     (case List.map_filter mainEntry bundles of [] \<Rightarrow> None | a # as \<Rightarrow> Some a)"

text \<open>
  \<^verbatim>\<open>runBundles\<close> up to the extraction of the result: the entry asset, the context, the
  evaluation of the bundles and the wait for the pending loads.
\<close>

definition evaluate :: "platform \<Rightarrow> nat \<Rightarrow> tick list \<Rightarrow> string \<Rightarrow> namedBundle list \<Rightarrow> obj
    \<Rightarrow> state \<Rightarrow> nat outcome" where
  "evaluate P n ts parentPath bundles globals st =
     (case entryAssetOf bundles of
        None \<Rightarrow> Some (Inl NullThrows, st)
      | Some entryAsset \<Rightarrow>
          (case prepareContext P (envContext entryAsset) parentPath globals st of
             (Inl e, st1) \<Rightarrow> Some (Inl e, st1)
           | (Inr (ctx, promises), st1) \<Rightarrow>
               (case evalBundles P n ts ctx bundles st1 of
                  None \<Rightarrow> None
                | Some (Inl e, st2) \<Rightarrow> Some (Inl e, st2)
                | Some (Inr ts1, st2) \<Rightarrow>
                    (case promises of
                       None \<Rightarrow> Some (Inr ctx, st2)
                     | Some pr \<Rightarrow>
                         (case awaitAll P n ts1 pr (length (promisesAt st2 pr)) st2 of
                            None \<Rightarrow> None
                          | Some (Inl e, st3) \<Rightarrow> Some (Inl e, st3)
                          | Some (Inr u, st3) \<Rightarrow> Some (Inr ctx, st3))))))"

text \<open>The \<^verbatim>\<open>switch\<close> on the output format, for a run that extracts the exports.\<close>

definition extractExports :: "asset \<Rightarrow> nat \<Rightarrow> state \<Rightarrow> error + result" where
  "extractExports entryAsset ctx st =
     (if outputFormat entryAsset = ''global'' then
        (if scopeHoist entryAsset then
           Inr (Value (case map_of (props st ctx) ''output'' of None \<Rightarrow> Undefined | Some v \<Rightarrow> v))
         else
           (case find (\<lambda>(key, v). startsWith key ''parcelRequire'') (props st ctx) of
              None \<Rightarrow> Inr (Value Undefined)
            | Some (key, f) \<Rightarrow>
                if typeof f = ''function'' then Inr (CallOf f (publicId entryAsset))
                else Inl TypeError))
      else if outputFormat entryAsset = ''commonjs'' then
        (let m = (case map_of (props st ctx) ''module'' of None \<Rightarrow> Undefined | Some v \<Rightarrow> v)
         in if typeof m = ''object'' \<and> m \<noteq> Null \<and> m \<noteq> Undefined
            then (case getProp st m ''exports'' of Inl e \<Rightarrow> Inl e | Inr v \<Rightarrow> Inr (Value v))
            else Inl AssertionError)
      else Inl (Error (''Unable to run bundle with outputFormat '' @ outputFormat entryAsset)))"

text \<open>
  \<^verbatim>\<open>runBundles(bundleGraph, parent, bundles, globals, opts)\<close>, with the path of the parent
  bundle and the option \<^verbatim>\<open>opts.require\<close> (\<open>None\<close> when it is not given).
\<close>

definition runBundles :: "platform \<Rightarrow> nat \<Rightarrow> tick list \<Rightarrow> string \<Rightarrow> namedBundle list \<Rightarrow> obj
    \<Rightarrow> bool option \<Rightarrow> state \<Rightarrow> result outcome" where
  "runBundles P n ts parentPath bundles globals optsRequire st =
     (case evaluate P n ts parentPath bundles globals st of
        None \<Rightarrow> None
      | Some (Inl e, st1) \<Rightarrow> Some (Inl e, st1)
      | Some (Inr ctx, st1) \<Rightarrow>
          if optsRequire \<noteq> Some False
          then (case entryAssetOf bundles of
                  None \<Rightarrow> Some (Inl NullThrows, st1)
                | Some entryAsset \<Rightarrow> Some (extractExports entryAsset ctx st1, st1))
          else Some (Inr (Value (Obj ctx)), st1))"

subsection \<open>A POSIX platform for concrete runs\<close>

text \<open>
  The platform's functions on POSIX paths. \<open>posix_resolve_sync\<close> is \<^verbatim>\<open>resolve.sync\<close> for
  the specifiers of the concrete runs below: a core module resolves to its own name, a
  relative or absolute specifier to the first existing file among the path itself, the path
  with \<^verbatim>\<open>.js\<close> or \<^verbatim>\<open>.json\<close> appended, and the index file of the directory; the search through
  \<^verbatim>\<open>node_modules\<close> for other bare specifiers is left out. \<open>posix_url_pathname\<close> drops the
  scheme and the host of a \<^verbatim>\<open>http\<close> address.
\<close>

definition posix_dirname :: "string \<Rightarrow> string" where
  "posix_dirname p =
     (let trimmed = rev (dropWhile (\<lambda>c. c = CHR ''/'') (rev p));
          upto = rev (dropWhile (\<lambda>c. c \<noteq> CHR ''/'') (rev trimmed));
          dir = rev (dropWhile (\<lambda>c. c = CHR ''/'') (rev upto))
      in if dir = [] then (if isAbsolute p then ''/'' else ''.'') else dir)"

definition posix_join :: "string \<Rightarrow> string \<Rightarrow> string" where
  "posix_join a b =
     (let full = (if a = [] then b else if b = [] then a else a @ ''/'' @ b);
          segs = normalizeSegments (isAbsolute full) [] (splitSlash full);
          body = (case segs of [] \<Rightarrow> [] | s # ss \<Rightarrow> s @ concat (map (\<lambda>s. CHR ''/'' # s) ss));
          slash = (if body \<noteq> [] \<and> full \<noteq> [] \<and> last full = CHR ''/'' then ''/'' else [])
      in if isAbsolute full then CHR ''/'' # body @ slash
         else if body = [] then ''.'' else body @ slash)"

definition posix_url_pathname :: "string \<Rightarrow> string" where
  "posix_url_pathname src =
     (if startsWith src ''http://'' then dropWhile (\<lambda>c. c \<noteq> CHR ''/'') (drop 7 src) else src)"

definition coreModules :: "string list" where
  "coreModules = [''assert'', ''buffer'', ''child_process'', ''crypto'', ''events'', ''fs'',
     ''http'', ''https'', ''module'', ''net'', ''os'', ''path'', ''stream'', ''url'', ''util'',
     ''vm'', ''zlib'']"

definition posix_resolve_sync :: "(string \<times> stmt list) list \<Rightarrow> string \<Rightarrow> string \<Rightarrow> string option" where
  "posix_resolve_sync files basedir specifier =
     (if specifier \<in> set coreModules then Some specifier
      else if startsWith specifier ''./'' \<or> startsWith specifier ''../'' \<or> isAbsolute specifier then
        (let x = (if isAbsolute specifier then posix_join specifier []
                  else posix_join basedir specifier)
         in find (\<lambda>f. map_of files f \<noteq> None)
              [x, x @ ''.js'', x @ ''.json'', x @ ''/index.js'', x @ ''/index.json''])
      else None)"

definition posix :: platform where
  "posix = \<lparr>dirname = posix_dirname,
            path_join = posix_join,
            url_pathname = posix_url_pathname,
            resolve_sync = posix_resolve_sync,
            native_require = (\<lambda>specifier. if specifier \<in> set coreModules
                                           then Some (HostObj specifier) else None)\<rparr>"

text \<open>The state of a process that has not run a bundle yet, over a given file system.\<close>

definition initialState :: "(string \<times> stmt list) list \<Rightarrow> state" where
  "initialState files = \<lparr>store = [], pending = [], nodeCache = [], overlayFS = files, jobs = []\<rparr>"

text \<open>The statement \<^verbatim>\<open>exports.k = v\<close> for a key and a literal value.\<close>

definition putLit :: "string \<times> val \<Rightarrow> stmt" where
  "putLit kv = ExportsPut (fst kv) (Lit (snd kv))"

subsection \<open>How the state moves on\<close>

text \<open>
  \<open>advances st st'\<close>: the files are the same, every entry of the cache of required modules in
  \<open>st\<close> is an entry of the cache in \<open>st'\<close>, every promise of \<open>st\<close> is a promise of \<open>st'\<close>, and
  a promise that is settled in \<open>st\<close> is settled the same way in \<open>st'\<close>. \<open>uncached st\<close> is the
  number of files that the cache of required modules does not hold.
\<close>

definition advances :: "state \<Rightarrow> state \<Rightarrow> bool" where
  "advances st st' \<longleftrightarrow>
     overlayFS st' = overlayFS st \<and>
     (\<forall>p c. map_of (nodeCache st) p = Some c \<longrightarrow> map_of (nodeCache st') p = Some c) \<and>
     (\<forall>pr i. i < length (promisesAt st pr) \<longrightarrow>
        i < length (promisesAt st' pr) \<and>
        (promisesAt st pr ! i \<noteq> Pending \<longrightarrow> promisesAt st' pr ! i = promisesAt st pr ! i))"





subsection \<open>Concrete runs\<close>

text \<open>
  Assets, bundles, file systems and runs for the concrete cases below. \<open>firstRun\<close> is the
  first run of a process; \<open>secondRun\<close> starts from the state that the first run left, after
  the files were replaced. \<open>stateAfter\<close> is the state that a run leaves.
\<close>

definition nodeAsset :: asset where
  "nodeAsset = \<lparr>envContext = ''node'', outputFormat = ''commonjs'', scopeHoist = False,
     publicId = ''a1''\<rparr>"

definition browserAsset :: asset where
  "browserAsset = \<lparr>envContext = ''browser'', outputFormat = ''global'', scopeHoist = True,
     publicId = ''a1''\<rparr>"

definition workerAsset :: asset where
  "workerAsset = \<lparr>envContext = ''web-worker'', outputFormat = ''global'', scopeHoist = True,
     publicId = ''a1''\<rparr>"

definition entryBundle :: "asset \<Rightarrow> namedBundle" where
  "entryBundle a = \<lparr>mainEntry = Some a, bundlePath = Some ''/dist/index.js'',
     bundleName = ''index.js''\<rparr>"

definition filesDep :: "int \<Rightarrow> (string \<times> stmt list) list" where
  "filesDep version =
     [(''/dist/index.js'', [ExportsPut ''dep'' (RequireCall ''./dep'')]),
      (''/dist/dep.js'', [ExportsPut ''version'' (Lit (Num version))])]"

definition firstRun :: "result outcome" where
  "firstRun = runBundles posix 1 [Resume] ''/dist/index.js'' [entryBundle nodeAsset] [] None
     (initialState (filesDep 1))"

definition secondRun :: "result outcome" where
  "secondRun =
     (case firstRun of
        None \<Rightarrow> None
      | Some (r, st) \<Rightarrow>
          runBundles posix 1 [Resume] ''/dist/index.js'' [entryBundle nodeAsset] [] None
            (st\<lparr>overlayFS := filesDep 2\<rparr>))"

definition filesNested :: "(string \<times> stmt list) list" where
  "filesNested =
     [(''/dist/index.js'', [AppendScript ''a.js'']),
      (''/dist/a.js'', [AppendScript ''http://localhost/b.js'']),
      (''/dist/b.js'', [ExportsPut ''loaded'' (Lit (Bool True))])]"

definition nestedRun :: "result outcome" where
  "nestedRun = runBundles posix 0 [Resume, Run 0] ''/dist/index.js'' [entryBundle browserAsset] []
     None (initialState filesNested)"

definition filesCircular :: "(string \<times> stmt list) list" where
  "filesCircular =
     [(''/dist/index.js'', [ExportsPut ''a'' (RequireCall ''./a'')]),
      (''/dist/a.js'', [ExportsPut ''early'' (Lit (Num 1)), ExportsPut ''b'' (RequireCall ''./b''),
                        ExportsPut ''late'' (Lit (Num 2))]),
      (''/dist/b.js'', [ExportsPut ''start'' (Lit (Bool True)), ExportsPut ''a'' (RequireCall ''./a.js''),
                        ExportsPut ''done'' (Lit (Bool True))])]"

definition stateAfter :: "'a outcome \<Rightarrow> state" where
  "stateAfter out = (case out of None \<Rightarrow> initialState [] | Some (r, st) \<Rightarrow> st)"






definition files42 :: "(string \<times> stmt list) list" where
  "files42 = [(''/dist/index.js'', [ModuleExports (Lit (Num 42))])]"


section \<open>Properties of the resolver\<close>

lemma mapE_nil_iff: "mapE f xs = Inr [] \<longleftrightarrow> xs = []"
  by (cases xs) (auto split: sum.splits)

lemma entryOf_Str: "entryOf path_resolve dir (Str s) =
    Inr (path_resolve dir (if s = [] \<or> s = ''.'' \<or> s = ''./'' then ''index'' else s))"
  by (simp add: entryOf_def)

lemma startsWith_append: "startsWith (p @ s) p"
  by (induction p) auto

lemma filter_string_singleton:
  "filter (\<lambda>entry. typeof entry = ''string'') [v] = (case v of Str s \<Rightarrow> [Str s] | _ \<Rightarrow> [])"
  by (cases v) auto

lemma getPackageEntries_field:
  "getPackageEntries path_resolve buildEnv dir pkg =
     Inr (entriesOfField path_resolve dir
            (if sourcePolicy buildEnv pkg then pkg_source pkg else pkg_main pkg))"
proof -
  have policy: "(buildEnv \<noteq> Some ''production'' \<and>
                 typeof (pkg_name pkg) = ''string'' \<and>
                 valStartsWith (pkg_name pkg) ''@parcel/'' \<and>
                 pkg_name pkg \<noteq> Str ''@parcel/watcher'') = sourcePolicy buildEnv pkg"
    by (cases "pkg_name pkg") (auto simp: sourcePolicy_def)
  have field: "mapE (entryOf path_resolve dir) (filter (\<lambda>entry. typeof entry = ''string'') [v]) =
               Inr (entriesOfField path_resolve dir v)" for v
    by (cases v) (simp_all add: entriesOfField_def entryOf_Str)
  show ?thesis
    unfolding getPackageEntries_def Let_def policy by (simp only: field)
qed

lemma sourcePolicy_update:
  "sourcePolicy buildEnv (pkg\<lparr>pkg_main := m\<rparr>) = sourcePolicy buildEnv pkg"
  "sourcePolicy buildEnv (pkg\<lparr>pkg_source := s\<rparr>) = sourcePolicy buildEnv pkg"
  by (simp_all add: sourcePolicy_def)

text \<open>
  Where the field that \<^verbatim>\<open>getPackageEntries\<close> reads is an empty string, \<^verbatim>\<open>.\<close> or \<^verbatim>\<open>./\<close>, the
  one entry is \<^verbatim>\<open>index\<close> resolved against the directory of the package.
\<close>

lemma getPackageEntries_default_index:
  assumes "(if sourcePolicy buildEnv pkg then pkg_source pkg else pkg_main pkg) \<in>
             {Str [], Str ''.'', Str ''./''}"
  shows "getPackageEntries path_resolve buildEnv dir pkg = Inr [path_resolve dir ''index'']"
  using assms by (auto simp: getPackageEntries_field entriesOfField_def split: if_splits)

subsection \<open>Builtin specifiers\<close>

text \<open>
  C1, as the code has it: \<^verbatim>\<open>resolve\<close> of \<^verbatim>\<open>NodeResolverBase\<close> never returns. For every
  specifier, a builtin one too, it raises the error that names the specifier and the
  referencing path; it reads neither the file system nor the package cache, so its outcome
  is the same for every file system, every extension list and every cache.
\<close>

theorem resolve_always_raises:
  \<open>(resolve this ident fromPath :: error + 't) =
       Inl (Error (''Could not resolve "'' @ ident @ ''" from "'' @ fromPath @ ''"'')) \<and>
   (resolve (this\<lparr>fs := fs', extensions := exts', packageCache := cache'\<rparr>) ident fromPath
      :: error + 't) = resolve this ident fromPath\<close>
  by (simp add: resolve_def)

theorem resolve_always_raises_witness:
  \<open>isBuiltin [''fs'', ''path''] ''path'' \<and>
   (resolve (NodeResolverBase () None [''.js'', ''.json'', ''.node'']) ''path'' ''/app/index.js''
      :: error + string) = Inl (Error ''Could not resolve "path" from "/app/index.js"'') \<and>
   (resolve ((NodeResolverBase () None [''.js'', ''.json'', ''.node''])
                \<lparr>fs := (), extensions := [], packageCache := []\<rparr>) ''path'' ''/app/index.js''
      :: error + string) =
     resolve (NodeResolverBase () None [''.js'', ''.json'', ''.node'']) ''path'' ''/app/index.js''\<close>
  using resolve_always_raises [where ?'t = string
      and this = "NodeResolverBase () None [''.js'', ''.json'', ''.node'']"
      and ident = "''path''" and fromPath = "''/app/index.js''"
      and fs' = "()" and exts' = "[]" and cache' = "[]"]
  by (simp add: isBuiltin_def builtins_def)

text \<open>
  C1 as the spec states it fails: \<^verbatim>\<open>fs\<close> is a builtin name, and \<^verbatim>\<open>resolve\<close> raises on it
  instead of returning it.
\<close>

theorem resolve_builtin_counterexample:
  \<open>isBuiltin [''fs'', ''path''] ''fs'' \<and>
   (resolve (NodeResolverBase () None [''.js'', ''.json'', ''.node'']) ''fs'' ''/app/index.js''
      :: error + string) = Inl (Error ''Could not resolve "fs" from "/app/index.js"'')\<close>
  by (simp add: isBuiltin_def builtins_def resolve_def)

subsection \<open>Candidate expansion\<close>

text \<open>
  C4: for a file path with an extension, \<^verbatim>\<open>expandFile\<close> gives the path itself first and
  then the path with each configured extension appended, in the configured order; for a
  file path without an extension it gives the path with each configured extension appended,
  in the configured order, and the bare path last.
\<close>

theorem expandFile_order:
  "(extname file \<noteq> [] \<longrightarrow>
      expandFile extname this file = file # map (\<lambda>ext. file @ ext) (extensions this)) \<and>
   (extname file = [] \<longrightarrow>
      expandFile extname this file = map (\<lambda>ext. file @ ext) (extensions this) @ [file])"
  by (simp add: expandFile_def)

theorem expandFile_order_witness:
  "posix_extname ''/app/foo.js'' \<noteq> [] \<and>
   expandFile posix_extname (NodeResolverBase () (Some [''.js'', ''.json'']) []) ''/app/foo.js'' =
     [''/app/foo.js'', ''/app/foo.js.js'', ''/app/foo.js.json''] \<and>
   posix_extname ''/app/foo'' = [] \<and>
   expandFile posix_extname (NodeResolverBase () (Some [''.js'', ''.json'']) []) ''/app/foo'' =
     [''/app/foo.js'', ''/app/foo.json'', ''/app/foo'']"
proof -
  have ext1: "posix_extname ''/app/foo.js'' = ''.js''"
    by (simp add: posix_extname_def basename_def)
  have ext2: "posix_extname ''/app/foo'' = []"
    by (simp add: posix_extname_def basename_def)
  show ?thesis
    using expandFile_order [of posix_extname "''/app/foo.js''"
        "NodeResolverBase () (Some [''.js'', ''.json'']) []"]
      expandFile_order [of posix_extname "''/app/foo''"
        "NodeResolverBase () (Some [''.js'', ''.json'']) []"]
    by (simp add: ext1 ext2 NodeResolverBase_def)
qed

subsection \<open>Package entries\<close>

text \<open>
  C3 at a manifest without an entry field: \<^verbatim>\<open>getPackageEntries\<close> gives no candidate at
  all. The filter on strings drops the missing field before the callback that would have
  put \<^verbatim>\<open>index\<close> in its place, whatever the build environment and the directory.
\<close>

theorem getPackageEntries_missing_main:
  "getPackageEntries path_resolve buildEnv dir
     \<lparr>pkg_name = Str ''mypkg'', pkg_main = Undefined, pkg_source = Undefined\<rparr> = Inr []"
  by (simp add: getPackageEntries_field entriesOfField_def)

theorem getPackageEntries_missing_main_witness:
  "getPackageEntries (posix_resolve ''/'') None ''/app/node_modules/mypkg''
     \<lparr>pkg_name = Str ''mypkg'', pkg_main = Undefined, pkg_source = Undefined\<rparr> = Inr []"
  using getPackageEntries_missing_main [of "posix_resolve ''/''" None "''/app/node_modules/mypkg''"]
  by simp

text \<open>
  C5, as the code has it: \<^verbatim>\<open>getPackageEntries\<close> reads the \<^verbatim>\<open>source\<close> field in place of
  \<^verbatim>\<open>main\<close> exactly when the policy holds, and \<^verbatim>\<open>main\<close> in every other case. Where the field
  it reads is a string, the result is the one entry that this field names, resolved against
  the directory of the package, with \<^verbatim>\<open>index\<close> standing in for an empty string, \<^verbatim>\<open>.\<close> and
  \<^verbatim>\<open>./\<close>. The field it does not read has no influence: without the policy the result is the
  same whatever the \<^verbatim>\<open>source\<close> field is, and under the policy it is the same whatever the
  \<^verbatim>\<open>main\<close> field is.
\<close>

theorem getPackageEntries_source_policy:
  "(sourcePolicy buildEnv pkg \<longrightarrow>
      (\<forall>src. pkg_source pkg = Str src \<longrightarrow>
         getPackageEntries path_resolve buildEnv dir pkg =
           Inr [path_resolve dir (if src = [] \<or> src = ''.'' \<or> src = ''./'' then ''index'' else src)]) \<and>
      (\<forall>m. getPackageEntries path_resolve buildEnv dir (pkg\<lparr>pkg_main := m\<rparr>) =
         getPackageEntries path_resolve buildEnv dir pkg)) \<and>
   (\<not> sourcePolicy buildEnv pkg \<longrightarrow>
      (\<forall>mn. pkg_main pkg = Str mn \<longrightarrow>
         getPackageEntries path_resolve buildEnv dir pkg =
           Inr [path_resolve dir (if mn = [] \<or> mn = ''.'' \<or> mn = ''./'' then ''index'' else mn)]) \<and>
      (\<forall>s. getPackageEntries path_resolve buildEnv dir (pkg\<lparr>pkg_source := s\<rparr>) =
         getPackageEntries path_resolve buildEnv dir pkg))"
  by (simp add: getPackageEntries_field sourcePolicy_update entriesOfField_def)

theorem getPackageEntries_source_policy_witness:
  "sourcePolicy None \<lparr>pkg_name = Str ''@parcel/core'', pkg_main = Str ''lib/index.js'',
       pkg_source = Str ''src/index.js''\<rparr> \<and>
   getPackageEntries (posix_resolve ''/'') None ''/pkgs/core''
     \<lparr>pkg_name = Str ''@parcel/core'', pkg_main = Str ''lib/index.js'',
       pkg_source = Str ''src/index.js''\<rparr> = Inr [''/pkgs/core/src/index.js''] \<and>
   getPackageEntries (posix_resolve ''/'') None ''/pkgs/core''
     \<lparr>pkg_name = Str ''@parcel/core'', pkg_main = Str ''lib/other.js'',
       pkg_source = Str ''src/index.js''\<rparr> = Inr [''/pkgs/core/src/index.js''] \<and>
   \<not> sourcePolicy (Some ''production'') \<lparr>pkg_name = Str ''@parcel/core'',
       pkg_main = Str ''lib/index.js'', pkg_source = Str ''src/index.js''\<rparr> \<and>
   getPackageEntries (posix_resolve ''/'') (Some ''production'') ''/pkgs/core''
     \<lparr>pkg_name = Str ''@parcel/core'', pkg_main = Str ''lib/index.js'',
       pkg_source = Str ''src/index.js''\<rparr> = Inr [''/pkgs/core/lib/index.js''] \<and>
   getPackageEntries (posix_resolve ''/'') (Some ''production'') ''/pkgs/core''
     \<lparr>pkg_name = Str ''@parcel/core'', pkg_main = Str ''lib/index.js'',
       pkg_source = Str ''src/other.js''\<rparr> = Inr [''/pkgs/core/lib/index.js'']"
proof -
  have r1: "posix_resolve ''/'' ''/pkgs/core'' ''src/index.js'' = ''/pkgs/core/src/index.js''"
    by (simp add: posix_resolve_def isAbsolute_def)
  have r2: "posix_resolve ''/'' ''/pkgs/core'' ''lib/index.js'' = ''/pkgs/core/lib/index.js''"
    by (simp add: posix_resolve_def isAbsolute_def)
  have p1: "sourcePolicy None \<lparr>pkg_name = Str ''@parcel/core'', pkg_main = Str ''lib/index.js'',
       pkg_source = Str ''src/index.js''\<rparr>"
    by (simp add: sourcePolicy_def)
  have p2: "\<not> sourcePolicy (Some ''production'') \<lparr>pkg_name = Str ''@parcel/core'',
       pkg_main = Str ''lib/index.js'', pkg_source = Str ''src/index.js''\<rparr>"
    by (simp add: sourcePolicy_def)
  note dev = getPackageEntries_source_policy [of None
        "\<lparr>pkg_name = Str ''@parcel/core'', pkg_main = Str ''lib/index.js'',
          pkg_source = Str ''src/index.js''\<rparr>" "posix_resolve ''/''" "''/pkgs/core''",
        THEN conjunct1, rule_format, OF p1]
  note prod = getPackageEntries_source_policy [of "Some ''production''"
        "\<lparr>pkg_name = Str ''@parcel/core'', pkg_main = Str ''lib/index.js'',
          pkg_source = Str ''src/index.js''\<rparr>" "posix_resolve ''/''" "''/pkgs/core''",
        THEN conjunct2, rule_format, OF p2]
  have d1: "getPackageEntries (posix_resolve ''/'') None ''/pkgs/core''
     \<lparr>pkg_name = Str ''@parcel/core'', pkg_main = Str ''lib/index.js'',
       pkg_source = Str ''src/index.js''\<rparr> = Inr [''/pkgs/core/src/index.js'']"
    using dev [THEN conjunct1, rule_format, of "''src/index.js''"] by (simp add: r1)
  have d2: "getPackageEntries (posix_resolve ''/'') None ''/pkgs/core''
     \<lparr>pkg_name = Str ''@parcel/core'', pkg_main = Str ''lib/other.js'',
       pkg_source = Str ''src/index.js''\<rparr> = Inr [''/pkgs/core/src/index.js'']"
    using dev [THEN conjunct2, rule_format, of "Str ''lib/other.js''"] d1 by simp
  have q1: "getPackageEntries (posix_resolve ''/'') (Some ''production'') ''/pkgs/core''
     \<lparr>pkg_name = Str ''@parcel/core'', pkg_main = Str ''lib/index.js'',
       pkg_source = Str ''src/index.js''\<rparr> = Inr [''/pkgs/core/lib/index.js'']"
    using prod [THEN conjunct1, rule_format, of "''lib/index.js''"] by (simp add: r2)
  have q2: "getPackageEntries (posix_resolve ''/'') (Some ''production'') ''/pkgs/core''
     \<lparr>pkg_name = Str ''@parcel/core'', pkg_main = Str ''lib/index.js'',
       pkg_source = Str ''src/other.js''\<rparr> = Inr [''/pkgs/core/lib/index.js'']"
    using prod [THEN conjunct2, rule_format, of "Str ''src/other.js''"] q1 by simp
  from p1 d1 d2 p2 q1 q2 show ?thesis by blast
qed

text \<open>
  C5 as the spec states it fails: a manifest of an internal package with only a \<^verbatim>\<open>main\<close>
  field resolves to its \<^verbatim>\<open>main\<close> file in a production build and not to that file in any
  other build, although no \<^verbatim>\<open>source\<close> field is present. In the other build the code reads
  the absent \<^verbatim>\<open>source\<close> field and gives no entry, which is the case of C3.
\<close>

theorem getPackageEntries_only_main_counterexample:
  "getPackageEntries (posix_resolve ''/'') (Some ''production'') ''/pkgs/core''
     \<lparr>pkg_name = Str ''@parcel/core'', pkg_main = Str ''lib/index.js'',
       pkg_source = Undefined\<rparr> = Inr [''/pkgs/core/lib/index.js''] \<and>
   getPackageEntries (posix_resolve ''/'') None ''/pkgs/core''
     \<lparr>pkg_name = Str ''@parcel/core'', pkg_main = Str ''lib/index.js'',
       pkg_source = Undefined\<rparr> = Inr []"
proof -
  have r2: "posix_resolve ''/'' ''/pkgs/core'' ''lib/index.js'' = ''/pkgs/core/lib/index.js''"
    by (simp add: posix_resolve_def isAbsolute_def)
  show ?thesis
    by (simp add: getPackageEntries_field sourcePolicy_def entriesOfField_def r2)
qed

section \<open>Properties of the bundle executor\<close>

declare req.simps [simp del]

lemma map_of_Object_assign: "map_of (Object_assign t s) = map_of t ++ map_of (rev s)"
  unfolding Object_assign_def
proof (induction s arbitrary: t)
  case Nil
  then show ?case by simp
next
  case (Cons a s)
  obtain k v where a: "a = (k, v)" by (cases a)
  have "fold (\<lambda>(k, v). AList.update k v) (a # s) t =
        fold (\<lambda>(k, v). AList.update k v) s (AList.update k v t)"
    by (simp add: a)
  then have "map_of (fold (\<lambda>(k, v). AList.update k v) (a # s) t) =
        map_of (AList.update k v t) ++ map_of (rev s)"
    by (simp only: Cons.IH)
  also have "map_of (AList.update k v t) = (map_of t)(k \<mapsto> v)"
    by (rule update_conv')
  also have "(map_of t)(k \<mapsto> v) = map_of t ++ [k \<mapsto> v]"
    by simp
  also have "map_of t ++ [k \<mapsto> v] ++ map_of (rev s) = map_of t ++ map_of (rev (a # s))"
    by (simp only: map_add_assoc a rev.simps map_of_append map_of.simps fst_conv snd_conv)
  finally show ?case .
qed

lemma map_of_Object_assign_notin:
  "k \<notin> fst ` set s \<Longrightarrow> map_of (Object_assign t s) k = map_of t k"
  by (simp add: map_of_Object_assign map_add_def map_of_eq_None_iff [THEN iffD2] split: option.splits)


lemma prepareNodeContext_eq:
  "prepareNodeContext P file globals st =
     (length (store st) + 2,
      st\<lparr>store := store st @
        [[],
         [(''exports'', Obj (length (store st))), (''require'', ReqFn file globals)],
         AList.update ''global'' (Obj (length (store st) + 2))
           (Object_assign
             [(''module'', Obj (length (store st) + 1)),
              (''exports'', Obj (length (store st))),
              (''__filename'', Str file),
              (''__dirname'', Str (dirname P file)),
              (''require'', ReqFn file globals),
              (''console'', HostObj ''console''),
              (''process'', HostObj ''process''),
              (''setTimeout'', HostFn ''setTimeout''),
              (''setImmediate'', HostFn ''setImmediate'')]
             globals)]\<rparr>)"
  by (simp add: prepareNodeContext_def alloc_def setProp_def props_def nth_append Let_def
      eval_nat_numeral)

lemma prepareBrowserContext_eq:
  "prepareBrowserContext file globals st =
     ((length (store st) + 3, length (pending st)),
      st\<lparr>store := store st @
        [[],
         [(''exports'', Obj (length (store st)))],
         [(''hostname'', Str ''localhost''), (''origin'', Str ''http://localhost'')],
         AList.update ''window'' (Obj (length (store st) + 3))
           (AList.update ''self'' (Obj (length (store st) + 3))
           (Object_assign
             [(''exports'', Obj (length (store st))),
              (''module'', Obj (length (store st) + 1)),
              (''document'', Document (length (pending st)) (length (store st) + 3) file),
              (''WebSocket'', HostFn ''WebSocket''),
              (''console'', HostObj ''console''),
              (''location'', Obj (length (store st) + 2)),
              (''fetch'', FetchFn (length (pending st)) file),
              (''atob'', HostFn ''atob''),
              (''btoa'', HostFn ''btoa''),
              (''URL'', HostFn ''URL'')]
             globals))],
        pending := pending st @ [[]]\<rparr>)"
  by (simp add: prepareBrowserContext_def alloc_def newPromises_def setProp_def props_def
      nth_append Let_def eval_nat_numeral)

lemma advances_refl: "advances st st"
  by (simp add: advances_def)

lemma advances_trans: "advances a b \<Longrightarrow> advances b c \<Longrightarrow> advances a c"
  unfolding advances_def by (metis (no_types, lifting))

lemma advances_store: "advances st (st\<lparr>store := s\<rparr>)"
  by (simp add: advances_def promisesAt_def)

lemma advances_jobs: "advances st (st\<lparr>jobs := s\<rparr>)"
  by (simp add: advances_def promisesAt_def)

lemma advances_setProp: "advances st (snd (setProp strict v k x st))"
  by (cases v) (simp_all add: setProp_def advances_store advances_refl)

lemma advances_alloc: "advances st (snd (alloc ps st))"
  by (simp add: alloc_def advances_store)

lemma advances_pushPromise: "advances st (snd (pushPromise pr st))"
  by (auto simp: pushPromise_def advances_def promisesAt_def nth_list_update nth_append)

lemma advances_settle: "advances st (settle pr i p st)"
  by (auto simp: settle_def advances_def promisesAt_def nth_list_update)

lemma advances_prepareNodeContext: "advances st (snd (prepareNodeContext P file globals st))"
  by (simp add: prepareNodeContext_eq advances_store)

lemma advances_prepareBrowserContext: "advances st (snd (prepareBrowserContext file globals st))"
  by (auto simp: prepareBrowserContext_eq advances_def promisesAt_def nth_append)

lemma advances_cache_new:
  "map_of (nodeCache st) res = None \<Longrightarrow> advances st (st\<lparr>nodeCache := AList.update res c (nodeCache st)\<rparr>)"
  by (auto simp: advances_def promisesAt_def update_conv')

lemma advances_setProp': "setProp strict v k x st = (r, st') \<Longrightarrow> advances st st'"
  using advances_setProp [of st strict v k x] by simp

lemma advances_pushPromise': "pushPromise pr st = (i, st') \<Longrightarrow> advances st st'"
  using advances_pushPromise [of st pr] by simp

lemma advances_run:
  "req P n fp globals specifier st = Some (r1, st1) \<Longrightarrow> advances st st1"
  "evalExpr P n ctx e st = Some (r2, st2) \<Longrightarrow> advances st st2"
  "execStmt P n strict ctx s st = Some (r3, st3) \<Longrightarrow> advances st st3"
  "runInContext P n strict ctx code st = Some (r4, st4) \<Longrightarrow> advances st st4"
proof (induction P n fp globals specifier st and P n ctx e st and P n strict ctx s st
    and P n strict ctx code st
    arbitrary: r1 st1 and r2 st2 and r3 st3 and r4 st4
    rule: req_evalExpr_execStmt_runInContext.induct)
  case (1 P n fp globals specifier st)
  show ?case
  proof (cases "resolve_sync P (overlayFS st) (dirname P fp) specifier")
    case None
    with "1.prems" show ?thesis by (simp add: req.simps advances_refl)
  next
    case (Some res)
    show ?thesis
    proof (cases "res = ''fs'' \<or> res = specifier \<or> map_of (nodeCache st) res \<noteq> None")
      case True
      with "1.prems" Some show ?thesis
        using advances_alloc [of st]
        by (auto simp: req.simps advances_refl alloc_def split: if_splits option.splits)
    next
      case False
      obtain ctx st' where prep: "prepareNodeContext P res globals st = (ctx, st')"
        by (cases "prepareNodeContext P res globals st")
      define st'' where "st'' = st'\<lparr>nodeCache := AList.update res ctx (nodeCache st')\<rparr>"
      have nc: "nodeCache st' = nodeCache st"
        using prep by (auto simp: prepareNodeContext_eq)
      have a1: "advances st st'"
        using advances_prepareNodeContext [of st P res globals] prep by simp
      have a2: "advances st' st''"
        unfolding st''_def using False nc by (intro advances_cache_new) simp
      have a: "advances st st''"
        using a1 a2 by (rule advances_trans)
      show ?thesis
      proof (cases "map_of (overlayFS st'') res")
        case None
        with "1.prems" Some False prep a show ?thesis
          by (simp add: req.simps st''_def)
      next
        case code: (Some code)
        show ?thesis
        proof (cases n)
          case 0
          with "1.prems" Some False prep code show ?thesis
            by (simp add: req.simps st''_def)
        next
          case (Suc m)
          from "1.prems" Some False prep code Suc
          obtain r st3 where run: "runInContext P m True ctx code st'' = Some (r, st3)"
            and st1: "st1 = st3"
            by (auto simp: req.simps st''_def split: option.splits sum.splits)
          have "advances st'' st3"
            using "1.IH" [OF Some _ _ _ _ _ _ code Suc run] False prep
            by (simp add: st''_def)
          with a st1 show ?thesis by (auto intro: advances_trans)
        qed
      qed
    qed
  qed
next
  case (2 P n ctx v st)
  then show ?case by (simp add: advances_refl)
next
  case (3 P n ctx specifier st)
  then show ?case
    by (auto simp: advances_refl split: option.splits val.splits)
next
  case (4 P n strict ctx k e st)
  then show ?case
    by (auto simp: advances_refl split: option.splits sum.splits prod.splits
        dest!: advances_setProp' intro: advances_trans)
next
  case (5 P n strict ctx e st)
  then show ?case
    by (auto simp: advances_refl split: option.splits sum.splits prod.splits
        dest!: advances_setProp' intro: advances_trans)
next
  case (6 P n strict ctx src st)
  then show ?case
    by (auto simp: advances_refl split: option.splits val.splits prod.splits
        dest!: advances_pushPromise' intro: advances_trans [OF _ advances_jobs])
next
  case (7 P n strict ctx url st)
  then show ?case
    by (auto simp: advances_refl advances_jobs split: option.splits val.splits)
next
  case (8 P n strict ctx st)
  then show ?case by (simp add: advances_refl)
next
  case (9 P n strict ctx s ss st)
  from "9.prems" obtain r st' where ex: "execStmt P n strict ctx s st = Some (r, st')"
    by (auto split: option.splits)
  have a: "advances st st'"
    using "9.IH"(1) [OF ex] .
  show ?case
  proof (cases r)
    case (Inl err)
    with "9.prems" ex a show ?thesis by simp
  next
    case (Inr u)
    with "9.prems" ex have run: "runInContext P n strict ctx ss st' = Some (r4, st4)"
      by simp
    have "advances st' st4"
      using "9.IH"(2) [OF ex refl Inr run] .
    with a show ?thesis by (rule advances_trans)
  qed
qed

lemma advances_runJob: "runJob P n j st = Some (r, st') \<Longrightarrow> advances st st'"
proof (cases j)
  case (LoadScript promises ctx fp src i)
  assume run: "runJob P n j st = Some (r, st')"
  show ?thesis
  proof (cases "map_of (overlayFS st) (path_join P (dirname P fp) (url_pathname P src))")
    case None
    with run LoadScript show ?thesis by (simp add: runJob_def advances_refl)
  next
    case (Some code)
    with run LoadScript obtain r1 st1 where
      rc: "runInContext P n False ctx code st = Some (r1, st1)"
      and st': "st' = st1 \<or> st' = settle promises i Fulfilled st1"
      by (auto simp: runJob_def split: option.splits sum.splits)
    have "advances st st1" using advances_run(4) [OF rc] .
    with st' show ?thesis
      by (auto intro: advances_trans [OF _ advances_settle])
  qed
next
  case (CallText promises target)
  assume "runJob P n j st = Some (r, st')"
  with CallText show ?thesis
    by (auto simp: runJob_def split: prod.splits
        dest!: advances_pushPromise' intro: advances_trans [OF _ advances_jobs])
next
  case (ReadDone promises i target)
  assume "runJob P n j st = Some (r, st')"
  with ReadDone show ?thesis
    by (auto simp: runJob_def advances_settle)
qed

lemma advances_runJobAt: "runJobAt P n i st = Some (r, st') \<Longrightarrow> advances st st'"
  by (auto simp: runJobAt_def advances_refl split: if_splits
      dest!: advances_runJob intro: advances_trans [OF advances_jobs])

lemma advances_awaitRead: "awaitRead P n ts st = Some (r, st') \<Longrightarrow> advances st st'"
proof (induction P n ts st arbitrary: r st' rule: awaitRead.induct)
  case (1 P n st)
  then show ?case by simp
next
  case (2 P n ts st)
  then show ?case by (simp add: advances_refl)
next
  case (3 P n i ts st)
  from "3.prems" obtain r1 st1 where job: "runJobAt P n i st = Some (r1, st1)"
    by (auto split: option.splits)
  have a: "advances st st1" using advances_runJobAt [OF job] .
  show ?case
  proof (cases r1)
    case (Inl e)
    with "3.prems" job a show ?thesis by simp
  next
    case (Inr u)
    with "3.prems" job have "awaitRead P n ts st1 = Some (r, st')" by simp
    then have "advances st1 st'" using "3.IH" [OF job refl Inr] by simp
    with a show ?thesis by (rule advances_trans)
  qed
qed

declare awaitAll.simps [simp del]

lemma awaitAll_result:
  "awaitAll P n ts pr k st = Some (r, st') \<Longrightarrow>
     advances st st' \<and>
     (r = Inr () \<longrightarrow> (\<forall>p \<in> set (take k (promisesAt st' pr)). p = Fulfilled))"
proof (induction P n ts pr k st arbitrary: r st' rule: awaitAll.induct)
  case (1 P n ts pr k st)
  note unf = "1.prems" [unfolded awaitAll.simps [of P n ts pr k st]]
  show ?case
  proof (cases "firstRejected (take k (promisesAt st pr))")
    case (Some e)
    with unf show ?thesis by (auto simp: advances_refl)
  next
    case None
    have ful: "\<forall>p \<in> set ps. p = Fulfilled" if "firstRejected ps = None" "Pending \<notin> set ps" for ps
      using that by (induction ps rule: firstRejected.induct) auto
    show ?thesis
    proof (cases "Pending \<notin> set (take k (promisesAt st pr))")
      case True
      with unf None ful [OF None True] show ?thesis by (simp add: advances_refl)
    next
      case False
      show ?thesis
      proof (cases ts)
        case Nil
        with unf None False show ?thesis by simp
      next
        case (Cons t ts1)
        show ?thesis
        proof (cases t)
          case Resume
          with unf None False Cons have "awaitAll P n ts1 pr k st = Some (r, st')" by simp
          then show ?thesis using "1.IH"(2) [OF None _ Cons Resume] False by simp
        next
          case (Run i)
          with unf None False Cons obtain r1 st1 where
            job: "runJobAt P n i st = Some (r1, st1)"
            by (auto split: option.splits)
          have a: "advances st st1" using advances_runJobAt [OF job] .
          show ?thesis
          proof (cases r1)
            case (Inl e)
            with unf None False Cons Run job a show ?thesis by auto
          next
            case (Inr u)
            with unf None False Cons Run job
            have "awaitAll P n ts1 pr k st1 = Some (r, st')" by simp
            then have "advances st1 st' \<and>
                (r = Inr () \<longrightarrow> (\<forall>p \<in> set (take k (promisesAt st' pr)). p = Fulfilled))"
              using "1.IH"(1) [OF None _ Cons Run job refl Inr] False by simp
            with a show ?thesis by (auto intro: advances_trans)
          qed
        qed
      qed
    qed
  qed
qed

lemma advances_evalBundles: "evalBundles P n ts ctx bs st = Some (r, st') \<Longrightarrow> advances st st'"
proof (induction P n ts ctx bs st arbitrary: r st' rule: evalBundles.induct)
  case (1 P n ts ctx st)
  then show ?case by (simp add: advances_refl)
next
  case (2 P n ts ctx b bs st)
  show ?case
  proof (cases "bundlePath b")
    case None
    with "2.prems" show ?thesis by (simp add: advances_refl)
  next
    case (Some fp)
    with "2.prems" obtain r1 st1 where rd: "awaitRead P n ts st = Some (r1, st1)"
      by (auto split: option.splits)
    have a1: "advances st st1" using advances_awaitRead [OF rd] .
    show ?thesis
    proof (cases r1)
      case (Inl e)
      with "2.prems" Some rd a1 show ?thesis by simp
    next
      case (Inr ts1)
      show ?thesis
      proof (cases "map_of (overlayFS st1) fp")
        case None
        with "2.prems" Some rd Inr a1 show ?thesis by simp
      next
        case code: (Some code)
        with "2.prems" Some rd Inr obtain r2 st2 where
          rc: "runInContext P n False ctx code st1 = Some (r2, st2)"
          by (auto split: option.splits)
        have a2: "advances st1 st2" using advances_run(4) [OF rc] .
        show ?thesis
        proof (cases r2)
          case (Inl e)
          with "2.prems" Some rd \<open>r1 = Inr ts1\<close> code rc a1 a2 show ?thesis
            by (auto intro: advances_trans)
        next
          case r2: (Inr u)
          with "2.prems" Some rd Inr code rc
          have "evalBundles P n ts1 ctx bs st2 = Some (r, st')" by simp
          then have "advances st2 st'"
            using "2.IH" [OF Some rd refl Inr code rc refl r2] by simp
          with a1 a2 show ?thesis by (auto intro: advances_trans)
        qed
      qed
    qed
  qed
qed

lemma advances_prepareNodeContext':
  "prepareNodeContext P fp globals st = (c, st') \<Longrightarrow> advances st st'"
  using advances_prepareNodeContext [of st P fp globals] by simp

lemma advances_prepareBrowserContext':
  "prepareBrowserContext fp globals st = (c, st') \<Longrightarrow> advances st st'"
  using advances_prepareBrowserContext [of st fp globals] by simp

lemma advances_alloc': "alloc ps st = (c, st') \<Longrightarrow> advances st st'"
  using advances_alloc [of st ps] by simp

lemma advances_prepareContext:
  "prepareContext P target parentPath globals st = (r, st') \<Longrightarrow> advances st st'"
  unfolding prepareContext_def
  by (auto split: if_splits prod.splits simp: advances_refl
      dest!: advances_prepareNodeContext' advances_prepareBrowserContext' advances_alloc'
      intro: advances_trans)

lemma advances_evaluate:
  "evaluate P n ts parentPath bundles globals st = Some (r, st') \<Longrightarrow> advances st st'"
  unfolding evaluate_def
  by (auto split: option.splits prod.splits sum.splits simp: advances_refl
      dest!: advances_prepareContext advances_evalBundles awaitAll_result [THEN conjunct1]
      intro: advances_trans)

lemma advances_runBundles:
  "runBundles P n ts parentPath bundles globals optsRequire st = Some (r, st') \<Longrightarrow> advances st st'"
  unfolding runBundles_def
  by (auto split: option.splits prod.splits sum.splits if_splits dest!: advances_evaluate)

lemma req_cached:
  assumes "resolve_sync P (overlayFS st) (dirname P fp) specifier = Some res"
      and "res \<noteq> ''fs''" and "res \<noteq> specifier"
      and "map_of (nodeCache st) res = Some cached"
  shows "req P m fp g specifier st = Some (moduleExports st cached, st)"
  using assms by (simp add: req.simps)

subsection \<open>The cache of required modules\<close>

text \<open>
  C2, as the code has it: the cache of required modules is one table of the process, and no
  run clears it. Whether a run returns or throws, an entry that the cache holds when the run
  starts is still there when the run ends, bound to the same context. From then on, over
  whatever files, a \<^verbatim>\<open>require\<close> whose specifier resolves to the cached path, where that path
  is neither \<^verbatim>\<open>fs\<close> nor the specifier itself, gives what reading \<^verbatim>\<open>module.exports\<close> of the
  cached context gives and leaves the state as it is, whatever the bound on the evaluation:
  the file is not evaluated again.
\<close>

theorem nodeCache_shared_by_runs:
  assumes "runBundles P n ts parentPath bundles globals optsRequire st = Some (r, st')"
      and "map_of (nodeCache st) res = Some cached"
      and "resolve_sync P files (dirname P fp) specifier = Some res"
      and "res \<noteq> ''fs''" and "res \<noteq> specifier"
  shows "map_of (nodeCache st') res = Some cached \<and>
         req P m fp g specifier (st'\<lparr>overlayFS := files\<rparr>) =
           Some (moduleExports (st'\<lparr>overlayFS := files\<rparr>) cached, st'\<lparr>overlayFS := files\<rparr>)"
proof -
  have "advances st st'"
    using assms(1) by (rule advances_runBundles)
  with assms(2) have kept: "map_of (nodeCache st') res = Some cached"
    by (simp add: advances_def)
  moreover have "req P m fp g specifier (st'\<lparr>overlayFS := files\<rparr>) =
      Some (moduleExports (st'\<lparr>overlayFS := files\<rparr>) cached, st'\<lparr>overlayFS := files\<rparr>)"
    by (rule req_cached) (use assms(3-5) kept in simp_all)
  ultimately show ?thesis by simp
qed

lemma firstRun_cache: "nodeCache (stateAfter firstRun) = [(''/dist/dep.js'', 5)]"
  by code_simp

theorem nodeCache_shared_by_runs_witness:
  "map_of (nodeCache (stateAfter secondRun)) ''/dist/dep.js'' = Some 5 \<and>
   req posix 0 ''/dist/index.js'' [] ''./dep'' ((stateAfter secondRun)\<lparr>overlayFS := filesDep 3\<rparr>) =
     Some (moduleExports ((stateAfter secondRun)\<lparr>overlayFS := filesDep 3\<rparr>) 5,
           (stateAfter secondRun)\<lparr>overlayFS := filesDep 3\<rparr>)"
proof -
  have run: "runBundles posix 1 [Resume] ''/dist/index.js'' [entryBundle nodeAsset] [] None
      ((stateAfter firstRun)\<lparr>overlayFS := filesDep 2\<rparr>) =
      Some (Inr (Value (Obj 6)), stateAfter secondRun)"
    by code_simp
  have cached: "map_of (nodeCache ((stateAfter firstRun)\<lparr>overlayFS := filesDep 2\<rparr>)) ''/dist/dep.js'' = Some 5"
    by (simp add: firstRun_cache)
  have res: "resolve_sync posix (filesDep 3) (dirname posix ''/dist/index.js'') ''./dep'' =
      Some ''/dist/dep.js''"
    by code_simp
  show ?thesis
    using nodeCache_shared_by_runs [OF run cached res, of 0 "[]"] by simp
qed

text \<open>
  C2 as the spec states it fails. The first run of a process requires \<^verbatim>\<open>./dep\<close> and caches
  it. The files are then replaced, and the second run starts from the state that the first
  one left: its cache is not empty, and its \<^verbatim>\<open>require\<close> returns the exports object that the
  first run built, with version 1, although the file now sets version 2.
\<close>

theorem nodeCache_per_run_counterexample:
  "nodeCache (stateAfter firstRun) = [(''/dist/dep.js'', 5)] \<and>
   map_of (props (stateAfter firstRun) 3) ''version'' = Some (Num 1) \<and>
   map_of (overlayFS ((stateAfter firstRun)\<lparr>overlayFS := filesDep 2\<rparr>)) ''/dist/dep.js'' =
     Some [ExportsPut ''version'' (Lit (Num 2))] \<and>
   map_option fst secondRun = Some (Inr (Value (Obj 6))) \<and>
   map_of (props (stateAfter secondRun) 6) ''dep'' = Some (Obj 3) \<and>
   map_of (props (stateAfter secondRun) 3) ''version'' = Some (Num 1)"
  by code_simp

subsection \<open>Pending loads\<close>

text \<open>
  C7, as the code has it: for a run with a browser side, every load that is in the array of
  pending loads when the evaluation of the bundles has finished, which is when
  \<^verbatim>\<open>Promise.all\<close> reads the array, is fulfilled in the state in which \<^verbatim>\<open>runBundles\<close> produces
  its result, whatever the order in which the event loop ran the deferred work.
\<close>

theorem runBundles_awaits_registered_loads:
  assumes "entryAssetOf bundles = Some entryAsset"
      and "prepareContext P (envContext entryAsset) parentPath globals st =
             (Inr (ctx, Some promises), st1)"
      and "runBundles P n ts parentPath bundles globals optsRequire st = Some (Inr v, st')"
  shows "\<exists>ts1 st2. evalBundles P n ts ctx bundles st1 = Some (Inr ts1, st2) \<and>
           length (promisesAt st2 promises) \<le> length (promisesAt st' promises) \<and>
           (\<forall>i < length (promisesAt st2 promises). promisesAt st' promises ! i = Fulfilled)"
proof -
  from assms(3) obtain c where ev: "evaluate P n ts parentPath bundles globals st = Some (Inr c, st')"
    by (auto simp: runBundles_def split: option.splits sum.splits if_splits prod.splits)
  from ev assms(1,2) obtain ts1 st2 where
    eb: "evalBundles P n ts ctx bundles st1 = Some (Inr ts1, st2)"
    and aw: "awaitAll P n ts1 promises (length (promisesAt st2 promises)) st2 = Some (Inr (), st')"
    by (auto simp: evaluate_def split: option.splits sum.splits prod.splits)
  from awaitAll_result [OF aw] have adv: "advances st2 st'"
    and ful: "\<forall>p \<in> set (take (length (promisesAt st2 promises)) (promisesAt st' promises)). p = Fulfilled"
    by simp_all
  have len: "length (promisesAt st2 promises) \<le> length (promisesAt st' promises)"
  proof (cases "promisesAt st2 promises")
    case Nil
    then show ?thesis by simp
  next
    case (Cons p ps)
    then have "length ps < length (promisesAt st2 promises)" by simp
    with adv have "length ps < length (promisesAt st' promises)"
      unfolding advances_def by blast
    with Cons show ?thesis by simp
  qed
  have "promisesAt st' promises ! i = Fulfilled" if "i < length (promisesAt st2 promises)" for i
  proof -
    from that len have "promisesAt st' promises ! i \<in>
        set (take (length (promisesAt st2 promises)) (promisesAt st' promises))"
      by (metis in_set_conv_nth length_take min.absorb2 nth_take)
    with ful show ?thesis by blast
  qed
  with eb len show ?thesis by blast
qed

theorem runBundles_awaits_registered_loads_witness:
  "map_option fst nestedRun = Some (Inr (Value Undefined)) \<and>
   promisesAt (stateAfter nestedRun) 0 ! 0 = Fulfilled"
proof -
  define st1 where "st1 = snd (prepareContext posix ''browser'' ''/dist/index.js'' []
      (initialState filesNested))"
  define st2 where "st2 = stateAfter (evalBundles posix 0 [Resume, Run 0] 3
      [entryBundle browserAsset] st1)"
  have entry: "entryAssetOf [entryBundle browserAsset] = Some browserAsset"
    by code_simp
  have prep: "prepareContext posix (envContext browserAsset) ''/dist/index.js'' []
      (initialState filesNested) = (Inr (3, Some 0), st1)"
    unfolding st1_def by code_simp
  have run: "runBundles posix 0 [Resume, Run 0] ''/dist/index.js'' [entryBundle browserAsset] []
      None (initialState filesNested) = Some (Inr (Value Undefined), stateAfter nestedRun)"
    by code_simp
  have eb: "evalBundles posix 0 [Resume, Run 0] 3 [entryBundle browserAsset] st1 =
      Some (Inr [Run 0], st2)"
    unfolding st1_def st2_def by code_simp
  have len: "length (promisesAt st2 0) = 1"
    unfolding st1_def st2_def by code_simp
  from runBundles_awaits_registered_loads [OF entry prep run] eb len
  have "promisesAt (stateAfter nestedRun) 0 ! 0 = Fulfilled"
    by auto
  moreover have "map_option fst nestedRun = Some (Inr (Value Undefined))"
    by code_simp
  ultimately show ?thesis by simp
qed

text \<open>
  C7 as the spec states it fails. The bundle appends a script tag for \<^verbatim>\<open>a.js\<close>, and \<^verbatim>\<open>a.js\<close>,
  when its load runs, appends one for \<^verbatim>\<open>b.js\<close>. \<^verbatim>\<open>Promise.all\<close> has read the array before,
  so the run produces its result as soon as the first load is fulfilled: the second load is
  still pending then, and its timer is still in the queue.
\<close>

theorem nested_load_left_pending_counterexample:
  "map_option fst nestedRun = Some (Inr (Value Undefined)) \<and>
   promisesAt (stateAfter nestedRun) 0 = [Fulfilled, Pending] \<and>
   jobs (stateAfter nestedRun) = [LoadScript 0 3 ''/dist/index.js'' ''http://localhost/b.js'' 1]"
  by code_simp

subsection \<open>Targets and output formats\<close>

text \<open>
  C9: when the context of the entry asset is none of \<^verbatim>\<open>browser\<close>, \<^verbatim>\<open>node\<close>,
  \<^verbatim>\<open>electron-main\<close> and \<^verbatim>\<open>electron-renderer\<close>, \<^verbatim>\<open>runBundles\<close> fails with the error that names
  the target. It does so whatever the bound on the evaluation and the schedule are, and in
  the state in which it was called: no context was prepared and no bundle was read or
  evaluated.
\<close>

theorem runBundles_unknown_target:
  assumes "entryAssetOf bundles = Some entryAsset"
      and "envContext entryAsset \<notin> {''browser'', ''node'', ''electron-main'', ''electron-renderer''}"
  shows "runBundles P n ts parentPath bundles globals optsRequire st =
           Some (Inl (Error (''Unknown target '' @ envContext entryAsset)), st)"
  using assms by (simp add: runBundles_def evaluate_def prepareContext_def)

theorem runBundles_unknown_target_witness:
  "runBundles posix 0 [] ''/dist/index.js'' [entryBundle workerAsset] [] None (initialState files42) =
     Some (Inl (Error ''Unknown target web-worker''), initialState files42)"
proof -
  have entry: "entryAssetOf [entryBundle workerAsset] = Some workerAsset"
    by code_simp
  have unknown: "envContext workerAsset \<notin> {''browser'', ''node'', ''electron-main'', ''electron-renderer''}"
    by (simp add: workerAsset_def)
  show ?thesis
    using runBundles_unknown_target [OF entry unknown, of posix 0 "[]" "''/dist/index.js''" "[]" None
        "initialState files42"]
    by (simp add: workerAsset_def)
qed

text \<open>
  C8: let the output format of the entry asset be \<^verbatim>\<open>commonjs\<close> and let the run extract the
  exports (\<^verbatim>\<open>opts.require\<close> is not \<^verbatim>\<open>false\<close>). Once the bundles are evaluated and the pending
  loads awaited, \<^verbatim>\<open>runBundles\<close> looks at the \<^verbatim>\<open>module\<close> binding of the context: when it is an
  object and not \<^verbatim>\<open>null\<close>, the run returns its \<^verbatim>\<open>exports\<close> property; when it is not, the run
  fails with the error of a failed invariant. The concrete case after the theorem is a
  bundle that sets \<^verbatim>\<open>module.exports = 42\<close>, which yields 42.
\<close>

theorem runBundles_commonjs_exports:
  assumes "entryAssetOf bundles = Some entryAsset"
      and "outputFormat entryAsset = ''commonjs''"
      and "optsRequire \<noteq> Some False"
      and "evaluate P n ts parentPath bundles globals st = Some (Inr ctx, st1)"
      and "m = (case map_of (props st1 ctx) ''module'' of None \<Rightarrow> Undefined | Some v \<Rightarrow> v)"
  shows "(typeof m = ''object'' \<and> m \<noteq> Null \<longrightarrow>
            (\<exists>v. getProp st1 m ''exports'' = Inr v \<and>
                 runBundles P n ts parentPath bundles globals optsRequire st =
                   Some (Inr (Value v), st1))) \<and>
         (\<not> (typeof m = ''object'' \<and> m \<noteq> Null) \<longrightarrow>
            runBundles P n ts parentPath bundles globals optsRequire st =
              Some (Inl AssertionError, st1))"
proof -
  have run: "runBundles P n ts parentPath bundles globals optsRequire st =
      Some (extractExports entryAsset ctx st1, st1)"
    using assms(1,3,4) by (simp add: runBundles_def)
  have ext: "extractExports entryAsset ctx st1 =
      (if typeof m = ''object'' \<and> m \<noteq> Null \<and> m \<noteq> Undefined
       then (case getProp st1 m ''exports'' of Inl e \<Rightarrow> Inl e | Inr v \<Rightarrow> Inr (Value v))
       else Inl AssertionError)"
    using assms(2,5) by (simp add: extractExports_def Let_def)
  show ?thesis
    unfolding run ext by (cases m) (simp_all add: getProp_def)
qed

theorem runBundles_commonjs_exports_witness:
  "runBundles posix 0 [Resume] ''/dist/index.js'' [entryBundle nodeAsset] [] None
     (initialState files42) =
     Some (Inr (Value (Num 42)),
           stateAfter (evaluate posix 0 [Resume] ''/dist/index.js'' [entryBundle nodeAsset] []
             (initialState files42))) \<and>
   runBundles posix 0 [Resume] ''/dist/index.js'' [entryBundle nodeAsset] [(''module'', Num 5)] None
     (initialState files42) =
     Some (Inl AssertionError,
           stateAfter (evaluate posix 0 [Resume] ''/dist/index.js'' [entryBundle nodeAsset]
             [(''module'', Num 5)] (initialState files42)))"
proof -
  define s1 where "s1 = stateAfter (evaluate posix 0 [Resume] ''/dist/index.js''
      [entryBundle nodeAsset] [] (initialState files42))"
  define s2 where "s2 = stateAfter (evaluate posix 0 [Resume] ''/dist/index.js''
      [entryBundle nodeAsset] [(''module'', Num 5)] (initialState files42))"
  have entry: "entryAssetOf [entryBundle nodeAsset] = Some nodeAsset"
    by code_simp
  have fmt: "outputFormat nodeAsset = ''commonjs''"
    by code_simp
  have opt: "(None :: bool option) \<noteq> Some False"
    by simp
  have ev1: "evaluate posix 0 [Resume] ''/dist/index.js'' [entryBundle nodeAsset] []
      (initialState files42) = Some (Inr 2, s1)"
    unfolding s1_def by code_simp
  have m1: "Obj 1 = (case map_of (props s1 2) ''module'' of None \<Rightarrow> Undefined | Some v \<Rightarrow> v)"
    unfolding s1_def by code_simp
  have e1: "getProp s1 (Obj 1) ''exports'' = Inr (Num 42)"
    unfolding s1_def by code_simp
  have ev2: "evaluate posix 0 [Resume] ''/dist/index.js'' [entryBundle nodeAsset]
      [(''module'', Num 5)] (initialState files42) = Some (Inr 2, s2)"
    unfolding s2_def by code_simp
  have m2: "Num 5 = (case map_of (props s2 2) ''module'' of None \<Rightarrow> Undefined | Some v \<Rightarrow> v)"
    unfolding s2_def by code_simp
  show ?thesis
    using runBundles_commonjs_exports [OF entry fmt opt ev1 m1]
      runBundles_commonjs_exports [OF entry fmt opt ev2 m2] e1
    by (simp add: s1_def s2_def)
qed

subsection \<open>The caller's globals\<close>



subsection \<open>Scripts made of literal exports\<close>

lemma Object_assign_Nil [simp]: "Object_assign t [] = t"
  by (simp add: Object_assign_def)

lemma Object_assign_Cons: "Object_assign t ((k, v) # kvs) = Object_assign (AList.update k v t) kvs"
  by (simp add: Object_assign_def)

lemma Object_assign_append: "Object_assign t (xs @ ys) = Object_assign (Object_assign t xs) ys"
  by (simp add: Object_assign_def)

lemma runInContext_append:
  "runInContext P n strict ctx (xs @ ys) st =
     (case runInContext P n strict ctx xs st of
        None \<Rightarrow> None
      | Some (Inl err, st1) \<Rightarrow> Some (Inl err, st1)
      | Some (Inr u, st1) \<Rightarrow> runInContext P n strict ctx ys st1)"
  by (induction xs arbitrary: st) (auto split: option.splits sum.splits)

lemma run_puts:
  assumes "map_of (props st ctx) ''exports'' = Some (Obj e)" and "e \<noteq> ctx"
      and "e < length (store st)"
  shows "runInContext P n strict ctx (map putLit kvs) st =
           Some (Inr (), st\<lparr>store := (store st)[e := Object_assign (props st e) kvs]\<rparr>)"
  using assms
proof (induction kvs arbitrary: st)
  case Nil
  then show ?case by (simp add: props_def)
next
  case (Cons kv kvs)
  obtain k v where kv: "kv = (k, v)" by (cases kv)
  define st1 where "st1 = st\<lparr>store := (store st)[e := AList.update k v (props st e)]\<rparr>"
  have step: "execStmt P n strict ctx (putLit kv) st = Some (Inr (), st1)"
    using Cons.prems by (simp add: putLit_def kv setProp_def st1_def)
  have p1: "map_of (props st1 ctx) ''exports'' = Some (Obj e)"
    using Cons.prems by (auto simp: st1_def props_def split: if_splits)
  have l1: "e < length (store st1)"
    using Cons.prems by (simp add: st1_def)
  have e1: "props st1 e = AList.update k v (props st e)"
    using Cons.prems by (simp add: st1_def props_def)
  have "runInContext P n strict ctx (map putLit (kv # kvs)) st =
      runInContext P n strict ctx (map putLit kvs) st1"
    by (simp add: step)
  also have "\<dots> = Some (Inr (), st1\<lparr>store := (store st1)[e := Object_assign (props st1 e) kvs]\<rparr>)"
    using Cons.IH [OF p1 Cons.prems(2) l1] .
  also have "st1\<lparr>store := (store st1)[e := Object_assign (props st1 e) kvs]\<rparr> =
      st\<lparr>store := (store st)[e := Object_assign (props st e) (kv # kvs)]\<rparr>"
    by (simp add: e1 kv Object_assign_Cons) (simp add: st1_def)
  finally show ?case .
qed

lemma prepareNodeContext_facts:
  assumes "''exports'' \<notin> fst ` set g" and "''module'' \<notin> fst ` set g"
      and "''require'' \<notin> fst ` set g"
      and "st0 = snd (prepareNodeContext P p g st)" and "L = length (store st)"
  shows "prepareNodeContext P p g st = (L + 2, st0)"
    and "nodeCache st0 = nodeCache st" and "overlayFS st0 = overlayFS st"
    and "length (store st0) = L + 3"
    and "props st0 L = []"
    and "props st0 (L + 1) = [(''exports'', Obj L), (''require'', ReqFn p g)]"
    and "map_of (props st0 (L + 2)) ''exports'' = Some (Obj L)"
    and "map_of (props st0 (L + 2)) ''module'' = Some (Obj (L + 1))"
    and "map_of (props st0 (L + 2)) ''require'' = Some (ReqFn p g)"
    and "\<forall>r < L. props st0 r = props st r"
  using assms
  by (simp_all add: prepareNodeContext_eq props_def nth_append update_conv'
      map_of_Object_assign_notin)

lemma load_module:
  assumes g: "''exports'' \<notin> fst ` set g" "''module'' \<notin> fst ` set g"
      "''require'' \<notin> fst ` set g"
    and L: "L = length (store st)"
    and res: "resolve_sync P (overlayFS st) (dirname P fp) spec = Some p"
      "p \<noteq> ''fs''" "p \<noteq> spec" "map_of (nodeCache st) p = None"
    and code: "map_of (overlayFS st) p =
      Some (map putLit pre @ ExportsPut k (RequireCall s) # map putLit post)"
    and stI: "stI = (snd (prepareNodeContext P p g st))
      \<lparr>store := (store (snd (prepareNodeContext P p g st)))[L := Object_assign [] pre],
        nodeCache := AList.update p (L + 2) (nodeCache st)\<rparr>"
    and inner: "req P m p g s stI = Some (Inr v, stI')"
    and frame: "\<forall>r < L + 3. props stI' r = props stI r" "L + 3 \<le> length (store stI')"
  shows "req P (Suc m) fp g spec st =
           Some (Inr (Obj L),
                 stI'\<lparr>store := (store stI')[L := Object_assign [] (pre @ (k, v) # post)]\<rparr>)"
proof -
  define c where "c = L + 2"
  define st0 where "st0 = snd (prepareNodeContext P p g st)"
  define st2 where "st2 = st0\<lparr>nodeCache := AList.update p c (nodeCache st0)\<rparr>"
  note f = prepareNodeContext_facts [OF g st0_def L, folded c_def]
  have cL: "L \<noteq> c" "L < c" "c < L + 3"
    by (simp_all add: c_def)
  have props2: "props st2 r = props st0 r" for r
    by (simp add: st2_def props_def)
  have stI': "stI = st0\<lparr>store := (store st0)[L := Object_assign [] pre],
      nodeCache := AList.update p c (nodeCache st)\<rparr>"
    by (simp add: stI st0_def c_def)
  have p2L: "props st2 L = []"
    by (simp add: props2 f)
  have stI_eq: "stI = st2\<lparr>store := (store st2)[L := Object_assign (props st2 L) pre]\<rparr>"
    unfolding p2L by (simp add: stI' st2_def f)
  have propsI: "props stI r = (if r = L then Object_assign [] pre else props st0 r)" for r
    using f(4) by (auto simp: stI' props_def)
  have unfold: "req P (Suc m) fp g spec st =
      (case runInContext P m True c
              (map putLit pre @ ExportsPut k (RequireCall s) # map putLit post) st2 of
         None \<Rightarrow> None
       | Some (Inl e, st3) \<Rightarrow> Some (Inl e, st3)
       | Some (Inr u, st3) \<Rightarrow> Some (moduleExports st3 c, st3))"
    using res code by (simp add: req.simps f st2_def)
  have pre: "runInContext P m True c (map putLit pre) st2 = Some (Inr (), stI)"
    unfolding stI_eq
    by (rule run_puts) (simp add: props2 f, simp add: cL, simp add: st2_def f)
  have pIL: "props stI' L = Object_assign [] pre"
    using frame(1) propsI [of L] by simp
  have lenI': "L < length (store stI')"
    using frame(2) by simp
  define stK where "stK = stI'\<lparr>store := (store stI')[L := AList.update k v (Object_assign [] pre)]\<rparr>"
  have mid: "execStmt P m True c (ExportsPut k (RequireCall s)) stI = Some (Inr (), stK)"
    using inner cL by (simp add: propsI f setProp_def stK_def pIL)
  have propsK: "props stK r = (if r = L then AList.update k v (Object_assign [] pre)
      else props stI' r)" for r
    using lenI' by (auto simp: stK_def props_def)
  have pIc: "props stI' c = props st0 c"
    using frame(1) cL propsI [of c] by simp
  have pI1: "props stI' (Suc L) = [(''exports'', Obj L), (''require'', ReqFn p g)]"
    using frame(1) propsI [of "Suc L"] f(6) by simp
  have bindK: "map_of (props stK c) ''exports'' = Some (Obj L)"
    using cL by (simp add: propsK pIc f)
  have lenK: "L < length (store stK)"
    using lenI' by (simp add: stK_def)
  have post: "runInContext P m True c (map putLit post) stK =
      Some (Inr (), stK\<lparr>store := (store stK)[L := Object_assign (props stK L) post]\<rparr>)"
    by (rule run_puts) (rule bindK, simp add: cL, rule lenK)
  define stF where "stF = stI'\<lparr>store := (store stI')[L := Object_assign [] (pre @ (k, v) # post)]\<rparr>"
  have pKL: "props stK L = AList.update k v (Object_assign [] pre)"
    by (simp add: propsK)
  have fin: "stK\<lparr>store := (store stK)[L := Object_assign (props stK L) post]\<rparr> = stF"
    unfolding pKL by (simp add: stK_def stF_def Object_assign_append Object_assign_Cons)
  have propsF: "props stF r = (if r = L then Object_assign [] (pre @ (k, v) # post)
      else props stI' r)" for r
    using lenI' by (auto simp: stF_def props_def)
  have me: "moduleExports stF c = Inr (Obj L)"
    using cL by (simp add: moduleExports_def getProp_def propsF pIc pI1 f)
  show ?thesis
    unfolding unfold stF_def [symmetric]
    by (simp add: runInContext_append pre mid post fin me del: execStmt.simps)
qed

subsection \<open>Every require returns\<close>




subsection \<open>Contexts keep their bindings\<close>















subsection \<open>Circular requires\<close>




subsection \<open>Two modules of literal exports that require each other\<close>

text \<open>
  The whole of such a load, for modules whose other statements set exports to literals. Let
  module \<open>A\<close> at \<open>pA\<close> set some exports, then set \<^verbatim>\<open>exports.kB = require(sB)\<close>, then set
  more exports, and let \<open>sB\<close> resolve to module \<open>B\<close> at \<open>pB\<close>, which sets some exports, sets
  \<^verbatim>\<open>exports.kA = require(sA')\<close> with \<open>sA'\<close> resolving to \<open>pA\<close> again, and sets more exports.
  Neither module is cached yet, and the globals leave \<^verbatim>\<open>exports\<close>, \<^verbatim>\<open>module\<close> and \<^verbatim>\<open>require\<close>
  alone. Then requiring \<open>A\<close> returns, with a nesting of two evaluations and without an
  error, the exports object of \<open>A\<close>; \<open>B\<close> holds under \<open>kA\<close> that same object, which it got
  while \<open>A\<close> had only run the statements before its \<^verbatim>\<open>require\<close>; and \<open>A\<close> holds under
  \<open>kB\<close> the exports object of \<open>B\<close>. Moreover the inner \<^verbatim>\<open>require\<close> of \<open>A\<close> by \<open>B\<close>, in any state
  in which \<open>A\<close> is cached, returns the \<^verbatim>\<open>module.exports\<close> that the context of \<open>A\<close> has at
  that moment and leaves the state as it is: nothing is evaluated.
\<close>

lemma circular_literal_modules:
  assumes g: "''exports'' \<notin> fst ` set g" "''module'' \<notin> fst ` set g"
      "''require'' \<notin> fst ` set g"
    and A: "resolve_sync P (overlayFS st) (dirname P fp) sA = Some pA"
      "pA \<noteq> ''fs''" "pA \<noteq> sA" "map_of (nodeCache st) pA = None"
    and codeA: "map_of (overlayFS st) pA =
      Some (map putLit preA @ ExportsPut kB (RequireCall sB) # map putLit postA)"
    and B: "resolve_sync P (overlayFS st) (dirname P pA) sB = Some pB"
      "pB \<noteq> ''fs''" "pB \<noteq> sB" "pB \<noteq> pA" "map_of (nodeCache st) pB = None"
    and codeB: "map_of (overlayFS st) pB =
      Some (map putLit preB @ ExportsPut kA (RequireCall sA') # map putLit postB)"
    and A': "resolve_sync P (overlayFS st) (dirname P pB) sA' = Some pA" "pA \<noteq> sA'"
    and eA: "eA = length (store st)" and eB: "eB = length (store st) + 3"
  shows "(\<exists>st'. req P (Suc (Suc n)) fp g sA st = Some (Inr (Obj eA), st') \<and>
               props st' eA = Object_assign [] (preA @ (kB, Obj eB) # postA) \<and>
               props st' eB = Object_assign [] (preB @ (kA, Obj eA) # postB)) \<and>
         (\<forall>stX c m. overlayFS stX = overlayFS st \<longrightarrow> map_of (nodeCache stX) pA = Some c \<longrightarrow>
               req P m pB g sA' stX = Some (moduleExports stX c, stX))"
proof -
  define L where "L = length (store st)"
  define LB where "LB = L + 3"
  define cA where "cA = L + 2"
  define a0 where "a0 = snd (prepareNodeContext P pA g st)"
  define stIA where "stIA = a0\<lparr>store := (store a0)[L := Object_assign [] preA],
      nodeCache := AList.update pA cA (nodeCache st)\<rparr>"
  define b0 where "b0 = snd (prepareNodeContext P pB g stIA)"
  define stIB where "stIB = b0\<lparr>store := (store b0)[LB := Object_assign [] preB],
      nodeCache := AList.update pB (LB + 2) (nodeCache stIA)\<rparr>"
  define stFB where "stFB = stIB\<lparr>store := (store stIB)
      [LB := Object_assign [] (preB @ (kA, Obj L) # postB)]\<rparr>"
  define stFA where "stFA = stFB\<lparr>store := (store stFB)
      [L := Object_assign [] (preA @ (kB, Obj LB) # postA)]\<rparr>"
  note fa = prepareNodeContext_facts [OF g a0_def L_def]
  have lenIA: "length (store stIA) = LB"
    by (simp add: stIA_def fa LB_def)
  note fb = prepareNodeContext_facts [OF g b0_def lenIA [symmetric]]
  have propsIA: "props stIA r = (if r = L then Object_assign [] preA else props a0 r)" for r
    using fa(4) by (auto simp: stIA_def props_def)
  have fsIA: "overlayFS stIA = overlayFS st"
    by (simp add: stIA_def fa)
  have cacheIA: "nodeCache stIA = AList.update pA cA (nodeCache st)"
    by (simp add: stIA_def)
  have propsIB: "props stIB r = (if r = LB then Object_assign [] preB else props b0 r)" for r
    using fb(4) by (auto simp: stIB_def props_def)
  have fsIB: "overlayFS stIB = overlayFS st"
    by (simp add: stIB_def fb fsIA)
  have lenIB: "length (store stIB) = LB + 3"
    by (simp add: stIB_def fb)
  have below: "props stIB r = props stIA r" if "r < LB" for r
    using that fb(10) by (simp add: propsIB)
  have cacheIB: "map_of (nodeCache stIB) pA = Some cA"
    using B(4) by (simp add: stIB_def cacheIA update_conv')
  have meA: "moduleExports stIB cA = Inr (Obj L)"
  proof -
    have m2: "map_of (props a0 cA) ''module'' = Some (Obj (Suc L))"
      using fa(8) by (simp add: cA_def)
    have m1: "props a0 (Suc L) = [(''exports'', Obj L), (''require'', ReqFn pA g)]"
      using fa(6) by simp
    have "props stIB cA = props a0 cA"
      using below [of cA] by (simp add: LB_def cA_def propsIA)
    moreover have "props stIB (Suc L) = props a0 (Suc L)"
      using below [of "Suc L"] by (simp add: LB_def propsIA)
    ultimately show ?thesis
      by (simp add: moduleExports_def getProp_def m1 m2)
  qed
  have innerB: "req P n pB g sA' stIB = Some (Inr (Obj L), stIB)"
    using req_cached [of P stIB pB sA' pA cA n g] A' A(2) cacheIB
    by (simp add: fsIB meA)
  have loadB: "req P (Suc n) pA g sB stIA = Some (Inr (Obj LB), stFB)"
    unfolding stFB_def
  proof (rule load_module [OF g lenIA [symmetric] _ B(2,3) _ _ _ innerB])
    show "resolve_sync P (overlayFS stIA) (dirname P pA) sB = Some pB"
      using B(1) by (simp add: fsIA)
    show "map_of (nodeCache stIA) pB = None"
      using B(4,5) by (simp add: cacheIA update_conv')
    show "map_of (overlayFS stIA) pB =
        Some (map putLit preB @ ExportsPut kA (RequireCall sA') # map putLit postB)"
      using codeB by (simp add: fsIA)
    show "stIB = (snd (prepareNodeContext P pB g stIA))
        \<lparr>store := (store (snd (prepareNodeContext P pB g stIA)))[LB := Object_assign [] preB],
          nodeCache := AList.update pB (LB + 2) (nodeCache stIA)\<rparr>"
      by (simp add: stIB_def b0_def)
    show "\<forall>r < LB + 3. props stIB r = props stIB r"
      by simp
    show "LB + 3 \<le> length (store stIB)"
      by (simp add: lenIB)
  qed
  have propsFB: "props stFB r = (if r = LB then Object_assign [] (preB @ (kA, Obj L) # postB)
      else props stIB r)" for r
    using lenIB by (auto simp: stFB_def props_def)
  have loadA: "req P (Suc (Suc n)) fp g sA st = Some (Inr (Obj L), stFA)"
    unfolding stFA_def
  proof (rule load_module [OF g L_def A codeA _ loadB])
    show "stIA = (snd (prepareNodeContext P pA g st))
        \<lparr>store := (store (snd (prepareNodeContext P pA g st)))[L := Object_assign [] preA],
          nodeCache := AList.update pA (L + 2) (nodeCache st)\<rparr>"
      by (simp add: stIA_def a0_def cA_def)
    show "\<forall>r < L + 3. props stFB r = props stIA r"
      using below by (simp add: propsFB LB_def)
    show "L + 3 \<le> length (store stFB)"
      by (simp add: stFB_def lenIB LB_def)
  qed
  have lenFB: "length (store stFB) = LB + 3"
    by (simp add: stFB_def lenIB)
  have propsFA: "props stFA r = (if r = L then Object_assign [] (preA @ (kB, Obj LB) # postA)
      else props stFB r)" for r
    using lenFB by (auto simp: stFA_def props_def LB_def)
  have "props stFA L = Object_assign [] (preA @ (kB, Obj LB) # postA)"
    by (simp add: propsFA)
  moreover have "props stFA LB = Object_assign [] (preB @ (kA, Obj L) # postB)"
    by (simp add: propsFA propsFB LB_def)
  ultimately have first: "\<exists>st'. req P (Suc (Suc n)) fp g sA st = Some (Inr (Obj eA), st') \<and>
      props st' eA = Object_assign [] (preA @ (kB, Obj eB) # postA) \<and>
      props st' eB = Object_assign [] (preB @ (kA, Obj eA) # postB)"
    using loadA by (auto simp: eA eB L_def LB_def)
  have second: "req P m pB g sA' stX = Some (moduleExports stX c, stX)"
    if "overlayFS stX = overlayFS st" "map_of (nodeCache stX) pA = Some c" for stX c m
    by (rule req_cached) (use that A' A(2) in simp_all)
  from first second show ?thesis by blast
qed

lemma circular_literal_modules_example:
  "req posix 2 ''/dist/index.js'' [] ''./a'' (initialState filesCircular) =
     Some (Inr (Obj 0),
           stateAfter (req posix 2 ''/dist/index.js'' [] ''./a'' (initialState filesCircular))) \<and>
   props (stateAfter (req posix 2 ''/dist/index.js'' [] ''./a'' (initialState filesCircular))) 0 =
     [(''early'', Num 1), (''b'', Obj 3), (''late'', Num 2)] \<and>
   props (stateAfter (req posix 2 ''/dist/index.js'' [] ''./a'' (initialState filesCircular))) 3 =
     [(''start'', Bool True), (''a'', Obj 0), (''done'', Bool True)]"
proof -
  define st where "st = initialState filesCircular"
  have g: "''exports'' \<notin> fst ` set ([] :: obj)" "''module'' \<notin> fst ` set ([] :: obj)"
      "''require'' \<notin> fst ` set ([] :: obj)"
    by simp_all
  have A: "resolve_sync posix (overlayFS st) (dirname posix ''/dist/index.js'') ''./a'' =
      Some ''/dist/a.js''" "''/dist/a.js'' \<noteq> ''fs''" "''/dist/a.js'' \<noteq> ''./a''"
      "map_of (nodeCache st) ''/dist/a.js'' = None"
    unfolding st_def by code_simp+
  have codeA: "map_of (overlayFS st) ''/dist/a.js'' =
      Some (map putLit [(''early'', Num 1)] @ ExportsPut ''b'' (RequireCall ''./b'') #
            map putLit [(''late'', Num 2)])"
    unfolding st_def by code_simp
  have B: "resolve_sync posix (overlayFS st) (dirname posix ''/dist/a.js'') ''./b'' =
      Some ''/dist/b.js''" "''/dist/b.js'' \<noteq> ''fs''" "''/dist/b.js'' \<noteq> ''./b''"
      "''/dist/b.js'' \<noteq> ''/dist/a.js''" "map_of (nodeCache st) ''/dist/b.js'' = None"
    unfolding st_def by code_simp+
  have codeB: "map_of (overlayFS st) ''/dist/b.js'' =
      Some (map putLit [(''start'', Bool True)] @ ExportsPut ''a'' (RequireCall ''./a.js'') #
            map putLit [(''done'', Bool True)])"
    unfolding st_def by code_simp
  have A': "resolve_sync posix (overlayFS st) (dirname posix ''/dist/b.js'') ''./a.js'' =
      Some ''/dist/a.js''" "''/dist/a.js'' \<noteq> ''./a.js''"
    unfolding st_def by code_simp+
  have eA: "0 = length (store st)" and eB: "3 = length (store st) + 3"
    by (simp_all add: st_def initialState_def)
  from circular_literal_modules [OF g A codeA B codeB A' eA eB, of 0]
  obtain st' where run: "req posix 2 ''/dist/index.js'' [] ''./a'' st = Some (Inr (Obj 0), st')"
    and pa: "props st' 0 = Object_assign [] ([(''early'', Num 1)] @ (''b'', Obj 3) # [(''late'', Num 2)])"
    and pb: "props st' 3 = Object_assign []
        ([(''start'', Bool True)] @ (''a'', Obj 0) # [(''done'', Bool True)])"
    by (auto simp: numeral_2_eq_2)
  have st': "st' = stateAfter (req posix 2 ''/dist/index.js'' [] ''./a'' st)"
    by (simp add: run stateAfter_def)
  show ?thesis
    using run pa pb unfolding st' st_def
    by (simp add: Object_assign_def)
qed

end
